theory Spec2Isabelle
  imports Complex_Main
begin

section \<open>Exceptions, tensors and tables\<close>

text \<open>
  The two notebooks are linear scripts over pandas, DGL and PyTorch. Every exception
  of those libraries is a value here; the scripts themselves raise nothing and catch
  nothing. Floating-point numbers are idealised as reals.
\<close>

datatype error =
    PandasError string
  | DGLError string
  | RuntimeError string
  | IndexError string
  | KeyError string
  | ValueError string
  | TypeError string
  | ZeroDivisionError

text \<open>A tensor as the notebooks use them: one or two dimensions, float or int64.\<close>

datatype tensor =
    FloatTensor1 "real list"
  | LongTensor1 "int list"
  | FloatTensor2 "real list list"
  | LongTensor2 "int list list"

fun shape0 :: "tensor \<Rightarrow> nat" where
  "shape0 (FloatTensor1 xs) = length xs"
| "shape0 (LongTensor1 xs) = length xs"
| "shape0 (FloatTensor2 xs) = length xs"
| "shape0 (LongTensor2 xs) = length xs"


record edge_row =
  Src :: nat
  Dst :: nat
  Weight :: real





section \<open>The graph object\<close>

record graph =
  num_nodes :: nat
  edges :: "(nat \<times> nat) list"
  ndata :: "string \<rightharpoonup> tensor"
  edata :: "string \<rightharpoonup> tensor"

definition number_of_nodes :: "graph \<Rightarrow> nat" where
  "number_of_nodes g = num_nodes g"

definition number_of_edges :: "graph \<Rightarrow> nat" where
  "number_of_edges g = length (edges g)"

text \<open>\<^verbatim>\<open>g.nodes()\<close>: the node ids, \<^verbatim>\<open>arange(number_of_nodes)\<close>.\<close>

definition nodes :: "graph \<Rightarrow> nat list" where
  "nodes g = [0..<num_nodes g]"

text \<open>
  Modelled from the spec: \<^verbatim>\<open>dgl.graph((src, dst))\<close> is a call into the external graph
  library, whose code is not in the repository. The spec leaves to that library that
  node ids are zero-based contiguous integers and that edge endpoints reference valid
  node ids; the notebook adds that nodes are consecutive integers starting from zero.
  With no node count given, the library takes the largest id of the two arrays plus
  one; the two arrays must have the same length.
\<close>

definition dgl_graph :: "nat list \<times> nat list \<Rightarrow> error + graph" where
  "dgl_graph sd =
     (case sd of (src, dst) \<Rightarrow>
        if length src \<noteq> length dst
        then Inl (DGLError ''src and dst must have the same length'')
        else Inr \<lparr> num_nodes = (if src @ dst = [] then 0 else Suc (Max (set (src @ dst)))),
                   edges = zip src dst,
                   ndata = Map.empty,
                   edata = Map.empty \<rparr>)"

text \<open>
  Modelled from the spec: node and edge features are managed entirely by the external
  graph library, whose code is not in the repository; the notebook uses \<^verbatim>\<open>g.ndata\<close>
  like a normal dictionary. \<^verbatim>\<open>g.ndata[key] = t\<close> and \<^verbatim>\<open>g.edata[key] = t\<close> are
  dictionary assignments, which the library refuses when the tensor has not one row per
  node (per edge); \<^verbatim>\<open>g.ndata.update(d)\<close> assigns the items of \<^verbatim>\<open>d\<close> in their order;
  \<^verbatim>\<open>del g.ndata[key]\<close> removes the key, with a KeyError when it is absent.
\<close>

definition set_ndata :: "graph \<Rightarrow> string \<Rightarrow> tensor \<Rightarrow> error + graph" where
  "set_ndata g key t =
     (if shape0 t \<noteq> num_nodes g
      then Inl (DGLError ''Expect number of features to match number of nodes'')
      else Inr (g\<lparr>ndata := (ndata g)(key \<mapsto> t)\<rparr>))"

definition set_edata :: "graph \<Rightarrow> string \<Rightarrow> tensor \<Rightarrow> error + graph" where
  "set_edata g key t =
     (if shape0 t \<noteq> length (edges g)
      then Inl (DGLError ''Expect number of features to match number of edges'')
      else Inr (g\<lparr>edata := (edata g)(key \<mapsto> t)\<rparr>))"

fun update_ndata :: "graph \<Rightarrow> (string \<times> tensor) list \<Rightarrow> error + graph" where
  "update_ndata g [] = Inr g"
| "update_ndata g ((key, t) # kvs) =
     (case set_ndata g key t of Inl e \<Rightarrow> Inl e | Inr g' \<Rightarrow> update_ndata g' kvs)"

definition del_ndata :: "graph \<Rightarrow> string \<Rightarrow> error + graph" where
  "del_ndata g key =
     (case ndata g key of
        None \<Rightarrow> Inl (KeyError key)
      | Some _ \<Rightarrow> Inr (g\<lparr>ndata := (ndata g)(key := None)\<rparr>))"


section \<open>Feature encodings\<close>

text \<open>\<^verbatim>\<open>torch.tensor([...]).long()\<close> on booleans: False is 0, True is 1.\<close>

definition long :: "bool \<Rightarrow> int" where
  "long b = (if b then 1 else 0)"

text \<open>\<^verbatim>\<open>club = torch.tensor([c == 'Officer' for c in club]).long()\<close>\<close>

definition club_of :: "string list \<Rightarrow> int list" where
  "club_of club = map long (map (\<lambda>c. c = ''Officer'') club)"


text \<open>
  \<^verbatim>\<open>F.one_hot(t)\<close> with the number of classes inferred: refused on an empty tensor and on
  a negative class value; otherwise the largest value plus one columns, with a single 1
  per row, at the column of the row's value.
\<close>

definition F_one_hot :: "int list \<Rightarrow> error + int list list" where
  "F_one_hot t =
     (if t = [] then Inl (RuntimeError ''Can not infer total number of classes from empty tensor.'')
      else if \<exists>v \<in> set t. v < 0 then Inl (RuntimeError ''Class values must be non-negative.'')
      else let num_classes = nat (Max (set t) + 1)
           in Inr (map (\<lambda>v. (replicate num_classes 0)[nat v := 1]) t))"

text \<open>
  \<^verbatim>\<open>torch.argmax\<close> of one row: the index of the first maximal entry; an empty row has
  none.
\<close>

definition argmax :: "('a::linorder) list \<Rightarrow> nat option" where
  "argmax xs =
     (if xs = [] then None
      else Some (length (takeWhile (\<lambda>x. x \<noteq> Max (set xs)) xs)))"


section \<open>The first notebook: load the CSV files, build the graph, attach features\<close>



text \<open>
  The libraries, as the notebook calls them. What each call returns, and whether it
  raises, is the library's: the notebook is modelled for every behaviour of the calls.
  \<^verbatim>\<open>'h\<close> is the library's heterograph object. The drawing cell (conversion to
  networkx, layout, drawing) is one call. \<^verbatim>\<open>print\<close>, \<^verbatim>\<open>g.number_of_nodes()\<close>,
  \<^verbatim>\<open>g.number_of_edges()\<close>, \<^verbatim>\<open>to_numpy\<close>, \<^verbatim>\<open>to_list\<close>, \<^verbatim>\<open>float\<close>, \<^verbatim>\<open>long\<close>, the list
  comprehension and the division by 100 are taken not to raise; the imports and the
  shell line \<^verbatim>\<open>!ls\<close> are not part of the run.
\<close>

type_synonym etype = "string \<times> string \<times> string"

record 'h lib =
  lib_graph :: "nat list \<times> nat list \<Rightarrow> error + graph"
  lib_draw :: "graph \<Rightarrow> error + unit"
  lib_in_degree :: "graph \<Rightarrow> nat \<Rightarrow> error + nat"
  lib_successors :: "graph \<Rightarrow> nat \<Rightarrow> error + nat list"
  lib_tensor_int :: "int list \<Rightarrow> error + int list"
  lib_tensor_bool :: "bool list \<Rightarrow> error + bool list"
  lib_tensor_real :: "real list \<Rightarrow> error + real list"
  lib_getitem :: "real list \<Rightarrow> nat list \<Rightarrow> error + real list"
  lib_one_hot :: "int list \<Rightarrow> error + int list list"
  lib_randn :: "nat \<Rightarrow> nat \<Rightarrow> error + real list list"
  lib_ndata_set :: "graph \<Rightarrow> string \<Rightarrow> tensor \<Rightarrow> error + graph"
  lib_ndata_update :: "graph \<Rightarrow> (string \<times> tensor) list \<Rightarrow> error + graph"
  lib_ndata_del :: "graph \<Rightarrow> string \<Rightarrow> error + graph"
  lib_ndata_get :: "graph \<Rightarrow> string \<Rightarrow> error + tensor"
  lib_edata_set :: "graph \<Rightarrow> string \<Rightarrow> tensor \<Rightarrow> error + graph"
  lib_srcdata_set :: "graph \<Rightarrow> string \<Rightarrow> tensor \<Rightarrow> error + graph"
  lib_dstdata_set :: "graph \<Rightarrow> string \<Rightarrow> tensor \<Rightarrow> error + graph"
  lib_heterograph :: "(etype \<times> int list \<times> int list) list \<Rightarrow> error + 'h"
  lib_edge_type_subgraph :: "'h \<Rightarrow> etype list \<Rightarrow> error + 'h"
  lib_het_srcdata_set :: "'h \<Rightarrow> string \<Rightarrow> tensor \<Rightarrow> error + 'h"
  lib_het_dstdata_set :: "'h \<Rightarrow> string \<Rightarrow> tensor \<Rightarrow> error + 'h"




section \<open>The second notebook: a two-layer GraphSAGE trained on two labelled nodes\<close>

type_synonym matrix = "real list list"

text \<open>
  The trainable tensors, by owner: the parameters of the two convolution layers and
  the weight of the node embedding. \<^verbatim>\<open>inputs = node_embed.weight\<close> is the same tensor
  object as the embedding's weight, so both names read one cell of the store.
\<close>

datatype param = Conv1 string | Conv2 string | NodeEmbedWeight

type_synonym store = "param \<Rightarrow> matrix"

definition inputs :: param where
  "inputs = NodeEmbedWeight"

text \<open>
  \<^verbatim>\<open>SAGEConv(in_feats, out_feats, 'mean')\<close> is the graph library's layer. Its parameter
  names and what it computes from the graph, its own parameters and the node features
  are the library's; the layer is taken as given.
\<close>

record sage_conv =
  conv_in :: nat
  conv_out :: nat
  conv_aggr :: string
  conv_params :: "string list"
  conv_call :: "graph \<Rightarrow> (string \<Rightarrow> matrix) \<Rightarrow> matrix \<Rightarrow> error + matrix"

record GraphSAGE =
  conv1 :: sage_conv
  conv2 :: sage_conv

definition GraphSAGE_init ::
  "(nat \<Rightarrow> nat \<Rightarrow> string \<Rightarrow> sage_conv) \<Rightarrow> nat \<Rightarrow> nat \<Rightarrow> nat \<Rightarrow> GraphSAGE" where
  "GraphSAGE_init SAGEConv in_feats h_feats num_classes =
     \<lparr> conv1 = SAGEConv in_feats h_feats ''mean'',
       conv2 = SAGEConv h_feats num_classes ''mean'' \<rparr>"

definition F_relu :: "matrix \<Rightarrow> matrix" where
  "F_relu h = map (map (\<lambda>x. max 0 x)) h"

definition forward :: "GraphSAGE \<Rightarrow> store \<Rightarrow> graph \<Rightarrow> matrix \<Rightarrow> error + matrix" where
  "forward self st g in_feat =
     (case conv_call (conv1 self) g (\<lambda>n. st (Conv1 n)) in_feat of
        Inl e \<Rightarrow> Inl e
      | Inr h \<Rightarrow>
          (let h = F_relu h
           in case conv_call (conv2 self) g (\<lambda>n. st (Conv2 n)) h of
                Inl e \<Rightarrow> Inl e
              | Inr h \<Rightarrow> Inr h))"

text \<open>\<^verbatim>\<open>net.parameters()\<close>: the parameters of the submodules, in the order of registration.\<close>

definition parameters :: "GraphSAGE \<Rightarrow> param list" where
  "parameters self = map Conv1 (conv_params (conv1 self)) @ map Conv2 (conv_params (conv2 self))"

text \<open>
  \<^verbatim>\<open>nn.Embedding(num_embeddings, embedding_dim)\<close>: a weight of that shape, filled with
  random draws; \<^verbatim>\<open>nn.init.xavier_uniform_\<close> overwrites the entries of a tensor with new
  draws, in place. The draws are given as functions of the position.
\<close>

definition nn_Embedding :: "(nat \<Rightarrow> nat \<Rightarrow> real) \<Rightarrow> nat \<Rightarrow> nat \<Rightarrow> matrix" where
  "nn_Embedding draw num_embeddings embedding_dim =
     map (\<lambda>i. map (\<lambda>j. draw i j) [0..<embedding_dim]) [0..<num_embeddings]"

definition xavier_uniform' :: "(nat \<Rightarrow> nat \<Rightarrow> real) \<Rightarrow> matrix \<Rightarrow> matrix" where
  "xavier_uniform' draw w = map (\<lambda>i. map (\<lambda>j. draw i j) [0..<length (w ! i)]) [0..<length w]"

definition node_embed_parameters :: "param list" where
  "node_embed_parameters = [NodeEmbedWeight]"

text \<open>
  The optimizer: the parameters it was given, and its per-parameter state. Autograd
  and the update rule of Adam are the framework's: \<^verbatim>\<open>loss.backward()\<close> after
  \<^verbatim>\<open>zero_grad()\<close> yields the gradients of the loss just computed (none for a tensor the
  loss does not depend on), and \<^verbatim>\<open>step()\<close> applies the rule to every parameter of the
  optimizer that has a gradient.
\<close>

record 's optimizer =
  param_groups :: "param list"
  opt_state :: "param \<rightharpoonup> 's"

definition Adam :: "param list \<Rightarrow> 's optimizer" where
  "Adam ps = \<lparr> param_groups = ps, opt_state = Map.empty \<rparr>"

record 's torch_lib =
  autograd :: "(store \<Rightarrow> error + real) \<Rightarrow> store \<Rightarrow> (param \<rightharpoonup> matrix)"
  adam_rule :: "'s option \<Rightarrow> matrix \<Rightarrow> matrix \<Rightarrow> 's \<times> matrix"

definition step_param ::
  "('s option \<Rightarrow> matrix \<Rightarrow> matrix \<Rightarrow> 's \<times> matrix) \<Rightarrow> (param \<rightharpoonup> matrix) \<Rightarrow> param \<Rightarrow>
   (param \<rightharpoonup> 's) \<times> store \<Rightarrow> (param \<rightharpoonup> 's) \<times> store" where
  "step_param rule grads p os_st =
     (case os_st of (os, st) \<Rightarrow>
        (case grads p of
           None \<Rightarrow> (os, st)
         | Some gr \<Rightarrow> (case rule (os p) (st p) gr of (s', v') \<Rightarrow> (os(p \<mapsto> s'), st(p := v')))))"

definition optimizer_step ::
  "('s option \<Rightarrow> matrix \<Rightarrow> matrix \<Rightarrow> 's \<times> matrix) \<Rightarrow> 's optimizer \<Rightarrow> (param \<rightharpoonup> matrix) \<Rightarrow>
   store \<Rightarrow> 's optimizer \<times> store" where
  "optimizer_step rule opt grads st =
     (case fold (step_param rule grads) (param_groups opt) (opt_state opt, st) of
        (os, st') \<Rightarrow> (opt\<lparr>opt_state := os\<rparr>, st'))"

text \<open>\<^verbatim>\<open>labeled_nodes = [0, 33]\<close>\<close>

definition labeled_nodes :: "nat list" where
  "labeled_nodes = [0, 33]"

text \<open>\<^verbatim>\<open>t[idx]\<close> with a list of indices: the rows at those indices, IndexError out of range.\<close>

fun getitem :: "'a list \<Rightarrow> nat list \<Rightarrow> error + 'a list" where
  "getitem t [] = Inr []"
| "getitem t (i # idx) =
     (if i < length t
      then (case getitem t idx of Inl e \<Rightarrow> Inl e | Inr r \<Rightarrow> Inr (t ! i # r))
      else Inl (IndexError ''index is out of bounds''))"

text \<open>\<^verbatim>\<open>F.log_softmax(logits, 1)\<close>: along dimension 1, that is, row by row.\<close>

definition log_softmax_row :: "real list \<Rightarrow> real list" where
  "log_softmax_row row = map (\<lambda>x. x - ln (\<Sum>y\<leftarrow>row. exp y)) row"

definition F_log_softmax :: "matrix \<Rightarrow> matrix" where
  "F_log_softmax logits = map log_softmax_row logits"

text \<open>
  \<^verbatim>\<open>F.nll_loss(input, target)\<close> with the default mean reduction: the mean over the rows
  of minus the entry at the row's target class. The library refuses batches of
  different sizes and a target outside the classes. (An empty batch, whose mean the
  library reports as nan, and the ignore index -100 are refused here too: the script
  passes two rows, with targets taken from the club labels.)
\<close>

definition F_nll_loss :: "matrix \<Rightarrow> int list \<Rightarrow> error + real" where
  "F_nll_loss input target =
     (if length input \<noteq> length target
      then Inl (ValueError ''Expected input batch_size to match target batch_size'')
      else if input = [] then Inl (ValueError ''empty batch'')
      else if \<exists>(row, t) \<in> set (zip input target). t < 0 \<or> int (length row) \<le> t
      then Inl (IndexError ''Target out of bounds'')
      else Inr (- (\<Sum>(row, t)\<leftarrow>zip input target. row ! nat t) / real (length input)))"

text \<open>The two lines of the loop body under \<^verbatim>\<open># compute loss\<close>.\<close>

definition compute_loss :: "matrix \<Rightarrow> int list \<Rightarrow> error + real" where
  "compute_loss logits labels =
     (let logp = F_log_softmax logits
      in case getitem logp labeled_nodes of
           Inl e \<Rightarrow> Inl e
         | Inr lp \<Rightarrow>
             (case getitem labels labeled_nodes of
                Inl e \<Rightarrow> Inl e
              | Inr tg \<Rightarrow> F_nll_loss lp tg))"

text \<open>The loss as a function of the trainable tensors: what \<^verbatim>\<open>loss.backward()\<close> differentiates.\<close>

definition loss_of :: "GraphSAGE \<Rightarrow> graph \<Rightarrow> int list \<Rightarrow> store \<Rightarrow> error + real" where
  "loss_of net g labels st =
     (case forward net st g (st inputs) of
        Inl e \<Rightarrow> Inl e
      | Inr logits \<Rightarrow> compute_loss logits labels)"

text \<open>The variables the training cell assigns.\<close>

record 's train_state =
  params :: store
  optimizer :: "'s optimizer"
  all_logits :: "matrix list"
  logits :: "matrix option"
  loss :: "real option"
  stdout :: "(nat \<times> real) list"

text \<open>One pass through the body of \<^verbatim>\<open>for e in range(100)\<close>.\<close>

definition epoch ::
  "'s torch_lib \<Rightarrow> GraphSAGE \<Rightarrow> graph \<Rightarrow> int list \<Rightarrow> nat \<Rightarrow> 's train_state \<Rightarrow> error + 's train_state" where
  "epoch lib net g labels e s =
     (case forward net (params s) g (params s inputs) of
        Inl err \<Rightarrow> Inl err
      | Inr lg \<Rightarrow>
          (case compute_loss lg labels of
             Inl err \<Rightarrow> Inl err
           | Inr l \<Rightarrow>
               (let grads = autograd lib (loss_of net g labels) (params s)
                in case optimizer_step (adam_rule lib) (optimizer s) grads (params s) of
                     (opt', st') \<Rightarrow>
                       Inr (s\<lparr> params := st',
                               optimizer := opt',
                               all_logits := all_logits s @ [lg],
                               logits := Some lg,
                               loss := Some l,
                               stdout := (if e mod 5 = 0 then stdout s @ [(e, l)] else stdout s) \<rparr>))))"

text \<open>A \<^verbatim>\<open>for\<close> loop over a list: the body once per element, in order; an exception ends it.\<close>

fun for_loop :: "(nat \<Rightarrow> 'a \<Rightarrow> error + 'a) \<Rightarrow> nat list \<Rightarrow> 'a \<Rightarrow> error + 'a" where
  "for_loop body [] s = Inr s"
| "for_loop body (e # es) s =
     (case body e s of Inl err \<Rightarrow> Inl err | Inr s' \<Rightarrow> for_loop body es s')"

definition train ::
  "'s torch_lib \<Rightarrow> GraphSAGE \<Rightarrow> graph \<Rightarrow> int list \<Rightarrow> 's train_state \<Rightarrow> error + 's train_state" where
  "train lib net g labels s = for_loop (epoch lib net g labels) [0..<100] s"

text \<open>
  The cells before the loop: the embedding with one row per node and five columns,
  re-initialised in place; the model with dimensions 5, 16 and 2; the optimizer over
  \<^verbatim>\<open>itertools.chain(net.parameters(), node_embed.parameters())\<close>; and \<^verbatim>\<open>all_logits = []\<close>.
  The initial values of the layers' parameters are the library's.
\<close>

definition node_embed :: "(nat \<Rightarrow> nat \<Rightarrow> real) \<Rightarrow> graph \<Rightarrow> matrix" where
  "node_embed draw g = nn_Embedding draw (number_of_nodes g) 5"

definition net_of :: "(nat \<Rightarrow> nat \<Rightarrow> string \<Rightarrow> sage_conv) \<Rightarrow> GraphSAGE" where
  "net_of SAGEConv = GraphSAGE_init SAGEConv 5 16 2"

definition initial_state ::
  "(nat \<Rightarrow> nat \<Rightarrow> string \<Rightarrow> sage_conv) \<Rightarrow> store \<Rightarrow> (nat \<Rightarrow> nat \<Rightarrow> real) \<Rightarrow> (nat \<Rightarrow> nat \<Rightarrow> real) \<Rightarrow>
   graph \<Rightarrow> 's train_state" where
  "initial_state SAGEConv init draw0 draw1 g =
     \<lparr> params = init(inputs := xavier_uniform' draw1 (node_embed draw0 g)),
       optimizer = Adam (parameters (net_of SAGEConv) @ node_embed_parameters),
       all_logits = [],
       logits = None,
       loss = None,
       stdout = [] \<rparr>"

text \<open>
  The last cell: \<^verbatim>\<open>pred = torch.argmax(logits, axis=1)\<close> and
  \<^verbatim>\<open>(pred == labels).sum().item() / len(pred)\<close>. The comparison broadcasts a tensor of
  one element and refuses other different sizes; the division is Python's.
\<close>

fun torch_argmax :: "matrix \<Rightarrow> error + nat list" where
  "torch_argmax [] = Inr []"
| "torch_argmax (row # rows) =
     (case argmax row of
        None \<Rightarrow> Inl (IndexError ''argmax(): Expected reduction dim 1 to have non-zero size'')
      | Some k \<Rightarrow> (case torch_argmax rows of Inl e \<Rightarrow> Inl e | Inr ks \<Rightarrow> Inr (k # ks)))"

definition tensor_eq :: "int list \<Rightarrow> int list \<Rightarrow> error + bool list" where
  "tensor_eq a b =
     (if length a = length b then Inr (map (\<lambda>(x, y). x = y) (zip a b))
      else if length a = 1 then Inr (map (\<lambda>y. hd a = y) b)
      else if length b = 1 then Inr (map (\<lambda>x. x = hd b) a)
      else Inl (RuntimeError ''The size of tensor a must match the size of tensor b''))"

definition accuracy :: "matrix \<Rightarrow> int list \<Rightarrow> error + real" where
  "accuracy lg labels =
     (case torch_argmax lg of
        Inl e \<Rightarrow> Inl e
      | Inr pred \<Rightarrow>
          (case tensor_eq (map int pred) labels of
             Inl e \<Rightarrow> Inl e
           | Inr hits \<Rightarrow>
               if length pred = 0 then Inl ZeroDivisionError
               else Inr (real (length (filter (\<lambda>b. b) hits)) / real (length pred))))"

text \<open>
  The whole second notebook, from the graph that \<^verbatim>\<open>load_zachery()\<close> returned to the
  printed accuracy. \<^verbatim>\<open>labels = g.ndata['club']\<close> is a dictionary lookup, and
  \<^verbatim>\<open>print('Labels', labels[labeled_nodes])\<close> indexes the labels before the training.
\<close>

definition node_classification ::
  "'s torch_lib \<Rightarrow> (nat \<Rightarrow> nat \<Rightarrow> string \<Rightarrow> sage_conv) \<Rightarrow> store \<Rightarrow> (nat \<Rightarrow> nat \<Rightarrow> real) \<Rightarrow>
   (nat \<Rightarrow> nat \<Rightarrow> real) \<Rightarrow> graph \<Rightarrow> error + 's train_state \<times> real" where
  "node_classification lib SAGEConv init draw0 draw1 g =
     (case ndata g ''club'' of
        None \<Rightarrow> Inl (KeyError ''club'')
      | Some t \<Rightarrow>
          (case t of
             LongTensor1 labels \<Rightarrow>
               (case getitem labels labeled_nodes of
                  Inl e \<Rightarrow> Inl e
                | Inr printed \<Rightarrow>
                    (case train lib (net_of SAGEConv) g labels
                            (initial_state SAGEConv init draw0 draw1 g) of
                       Inl e \<Rightarrow> Inl e
                     | Inr s \<Rightarrow>
                         (case logits s of
                            None \<Rightarrow> Inl (RuntimeError ''name logits is not defined'')
                          | Some lg \<Rightarrow>
                              (case accuracy lg labels of
                                 Inl e \<Rightarrow> Inl e
                               | Inr acc \<Rightarrow> Inr (s, acc)))))
           | _ \<Rightarrow> Inl (RuntimeError ''expected an int64 vector of class labels'')))"


section \<open>Example objects\<close>

text \<open>
  Small concrete layers, a graph of 34 unconnected nodes and a framework with a trivial
  gradient and update rule, for the closed instances of the theorems below.
\<close>

definition shift_conv :: sage_conv where
  "shift_conv = \<lparr> conv_in = 2, conv_out = 2, conv_aggr = ''mean'', conv_params = [],
                  conv_call = (\<lambda>g w h. Inr (map (map (\<lambda>x. x - 1)) h)) \<rparr>"

definition example_SAGEConv :: "nat \<Rightarrow> nat \<Rightarrow> string \<Rightarrow> sage_conv" where
  "example_SAGEConv in_feats out_feats aggregator_type =
     \<lparr> conv_in = in_feats, conv_out = out_feats, conv_aggr = aggregator_type,
       conv_params = [''fc_self.weight'', ''fc_neigh.weight'', ''bias''],
       conv_call = (\<lambda>g w h. Inr (replicate (num_nodes g) (replicate out_feats 0))) \<rparr>"

definition example_graph :: graph where
  "example_graph =
     \<lparr> num_nodes = 34, edges = [], ndata = [''club'' \<mapsto> LongTensor1 (replicate 34 0)],
       edata = Map.empty \<rparr>"

text \<open>The same 34 nodes with the club labels split evenly: 0 on the nodes 0 to 16, 1 on 17 to 33.\<close>

definition split_graph :: graph where
  "split_graph =
     \<lparr> num_nodes = 34, edges = [],
       ndata = [''club'' \<mapsto> LongTensor1 (replicate 17 0 @ replicate 17 1)],
       edata = Map.empty \<rparr>"

definition example_lib :: "unit torch_lib" where
  "example_lib =
     \<lparr> autograd = (\<lambda>f st p. if p = NodeEmbedWeight then Some [[1]] else None),
       adam_rule = (\<lambda>s v gr. ((), gr)) \<rparr>"

text \<open>
  A library whose gradient records the value of the objective it was given: every parameter's
  gradient is the one-entry matrix holding the loss, and the update rule writes the gradient
  into the parameter. After one step the parameters show which function was differentiated.
\<close>

definition probe_lib :: "unit torch_lib" where
  "probe_lib =
     \<lparr> autograd = (\<lambda>f st p. case f st of Inl e \<Rightarrow> None | Inr l \<Rightarrow> Some [[l]]),
       adam_rule = (\<lambda>s v gr. ((), gr)) \<rparr>"

definition example_pair :: graph where
  "example_pair = \<lparr>num_nodes = 2, edges = [(0, 1), (1, 0)], ndata = Map.empty, edata = Map.empty\<rparr>"







section \<open>Club encoding\<close>

lemma club_of_nth:
  "i < length cs \<Longrightarrow> club_of cs ! i = (if cs ! i = ''Officer'' then 1 else 0)"
  by (simp add: club_of_def long_def)

lemma club_of_range: "v \<in> set (club_of cs) \<Longrightarrow> v = 0 \<or> v = 1"
  by (auto simp: club_of_def long_def)

lemma one_hot_row: "k < n \<Longrightarrow> (replicate n (0::int))[k := 1] = replicate k 0 @ 1 # replicate (n - Suc k) 0"
  by (simp add: upd_conv_take_nth_drop)

lemma one_hot_row_Max: "k < n \<Longrightarrow> Max (set ((replicate n (0::int))[k := 1])) = 1"
proof -
  assume k: "k < n"
  have "set ((replicate n (0::int))[k := 1]) \<subseteq> {0, 1}"
    by (auto simp: one_hot_row [OF k])
  moreover have "1 \<in> set ((replicate n (0::int))[k := 1])"
    by (simp add: one_hot_row [OF k])
  ultimately show ?thesis
    by (intro Max_eqI) auto
qed

lemma argmax_one_hot_row: "k < n \<Longrightarrow> argmax ((replicate n (0::int))[k := 1]) = Some k"
proof -
  assume k: "k < n"
  let ?row = "(replicate n (0::int))[k := 1]"
  have ne: "?row \<noteq> []" using k by auto
  have "argmax ?row = Some (length (takeWhile (\<lambda>x. x \<noteq> 1) ?row))"
    unfolding argmax_def one_hot_row_Max [OF k] using ne by simp
  also have "takeWhile (\<lambda>x. x \<noteq> 1) ?row = replicate k 0"
    unfolding one_hot_row [OF k] by (subst takeWhile_append2) auto
  finally show ?thesis by simp
qed

lemma count_one_hot_row: "k < n \<Longrightarrow> count_list ((replicate n (0::int))[k := 1]) 1 = 1"
  by (simp add: one_hot_row count_list_0_iff)

lemma F_one_hot_club:
  assumes "cs \<noteq> []"
  shows "F_one_hot (club_of cs) =
           Inr (map (\<lambda>v. (replicate (nat (Max (set (club_of cs)) + 1)) 0)[nat v := 1]) (club_of cs))"
proof -
  have "club_of cs \<noteq> []" using assms by (simp add: club_of_def)
  moreover have "\<not> (\<exists>v \<in> set (club_of cs). v < 0)"
    using club_of_range by fastforce
  ultimately show ?thesis by (simp add: F_one_hot_def)
qed

lemma F_one_hot_length: "F_one_hot t = Inr oh \<Longrightarrow> length oh = length t"
  by (auto simp: F_one_hot_def Let_def split: if_splits)

text \<open>
  C7. The categorical encoding gives 1 to a node exactly when its Club string is
  'Officer' and 0 otherwise. For every non-empty list of Club strings the one-hot
  encoding exists, has one row per node, and round-trips: the argmax of row i is the
  club value of node i, and row i has exactly one entry equal to 1. On the empty list
  there is no node, and the library call raises.
\<close>

theorem club_onehot_roundtrip:
  "(\<forall>i < length cs. club_of cs ! i = (if cs ! i = ''Officer'' then 1 else 0)) \<and>
   (cs = [] \<longrightarrow> (\<exists>e. F_one_hot (club_of cs) = Inl e)) \<and>
   (cs \<noteq> [] \<longrightarrow>
      (\<exists>club_onehot. F_one_hot (club_of cs) = Inr club_onehot \<and>
         length club_onehot = length cs \<and>
         (\<forall>i < length cs.
            map_option int (argmax (club_onehot ! i)) = Some (club_of cs ! i) \<and>
            count_list (club_onehot ! i) 1 = 1)))"
proof (intro conjI impI allI)
  fix i assume "i < length cs"
  then show "club_of cs ! i = (if cs ! i = ''Officer'' then 1 else 0)"
    by (rule club_of_nth)
next
  assume "cs = []"
  then show "\<exists>e. F_one_hot (club_of cs) = Inl e"
    by (simp add: F_one_hot_def club_of_def)
next
  assume ne: "cs \<noteq> []"
  let ?club = "club_of cs"
  let ?n = "nat (Max (set ?club) + 1)"
  let ?oh = "map (\<lambda>v. (replicate ?n (0::int))[nat v := 1]) ?club"
  have len: "length ?club = length cs" by (simp add: club_of_def)
  have rows: "map_option int (argmax (?oh ! i)) = Some (?club ! i) \<and> count_list (?oh ! i) 1 = 1"
    if i: "i < length cs" for i
  proof -
    have mem: "?club ! i \<in> set ?club" using i len by simp
    then have le: "?club ! i \<le> Max (set ?club)" by simp
    have nonneg: "0 \<le> ?club ! i" using club_of_range [OF mem] by auto
    have k: "nat (?club ! i) < ?n" using le nonneg by linarith
    have row: "?oh ! i = (replicate ?n 0)[nat (?club ! i) := 1]" using i len by simp
    have "argmax (?oh ! i) = Some (nat (?club ! i))"
      unfolding row by (rule argmax_one_hot_row [OF k])
    moreover have "count_list (?oh ! i) 1 = 1"
      unfolding row by (rule count_one_hot_row [OF k])
    ultimately show ?thesis using nonneg by simp
  qed
  show "\<exists>club_onehot. F_one_hot (club_of cs) = Inr club_onehot \<and>
         length club_onehot = length cs \<and>
         (\<forall>i < length cs.
            map_option int (argmax (club_onehot ! i)) = Some (club_of cs ! i) \<and>
            count_list (club_onehot ! i) 1 = 1)"
    using F_one_hot_club [OF ne] len rows by (intro exI [of _ ?oh]) simp
qed

theorem club_onehot_roundtrip_witness:
  "club_of [''Mr. Hi'', ''Officer''] = [0, 1] \<and>
   (\<exists>club_onehot. F_one_hot (club_of [''Mr. Hi'', ''Officer'']) = Inr club_onehot \<and>
      length club_onehot = 2 \<and>
      map_option int (argmax (club_onehot ! 1)) = Some 1 \<and>
      count_list (club_onehot ! 1) 1 = 1) \<and>
   (\<exists>e. F_one_hot (club_of []) = Inl e)"
proof -
  let ?cs = "[''Mr. Hi'', ''Officer'']"
  have ne: "?cs \<noteq> []" by simp
  have club: "club_of ?cs = [0, 1]" by (simp add: club_of_def long_def)
  from club_onehot_roundtrip [of ?cs] ne
  obtain oh where oh: "F_one_hot (club_of ?cs) = Inr oh" "length oh = length ?cs"
    and rt: "\<forall>i < length ?cs. map_option int (argmax (oh ! i)) = Some (club_of ?cs ! i) \<and>
               count_list (oh ! i) 1 = 1"
    by blast
  from rt have "map_option int (argmax (oh ! 1)) = Some (club_of ?cs ! 1) \<and> count_list (oh ! 1) 1 = 1"
    by simp
  moreover from club_onehot_roundtrip [of "[]"] have "\<exists>e. F_one_hot (club_of []) = Inl e"
    by blast
  ultimately show ?thesis using oh club by simp
qed


section \<open>Graph construction\<close>

lemma dgl_graph_same_length:
  "length src = length dst \<Longrightarrow>
   dgl_graph (src, dst) =
     Inr \<lparr> num_nodes = (if src @ dst = [] then 0 else Suc (Max (set (src @ dst)))),
           edges = zip src dst, ndata = Map.empty, edata = Map.empty \<rparr>"
  by (simp add: dgl_graph_def)

lemma infer_bound: "x \<in> set ids \<Longrightarrow> x < (if ids = [] then 0 else Suc (Max (set ids)))"
  by (auto simp: less_Suc_eq_le)

text \<open>
  C6. The graph built from the Src and Dst columns of the edge table exists; its node
  ids are 0, 1, ..., number_of_nodes - 1; it has one edge per row; every entry of src
  and dst is less than the number of nodes, so both endpoints of every edge are node
  ids; and when there is an edge, the last node id is one of the endpoints.
\<close>

theorem dgl_graph_node_ids:
  "\<exists>g. dgl_graph (map Src edges_data, map Dst edges_data) = Inr g \<and>
       nodes g = [0..<number_of_nodes g] \<and>
       number_of_edges g = length edges_data \<and>
       (\<forall>x \<in> set (map Src edges_data) \<union> set (map Dst edges_data). x < number_of_nodes g) \<and>
       (\<forall>(u, v) \<in> set (edges g). u \<in> set (nodes g) \<and> v \<in> set (nodes g)) \<and>
       (edges_data \<noteq> [] \<longrightarrow>
          number_of_nodes g - 1 \<in> set (map Src edges_data) \<union> set (map Dst edges_data))"
proof -
  let ?src = "map Src edges_data" and ?dst = "map Dst edges_data"
  let ?n = "if ?src @ ?dst = [] then 0 else Suc (Max (set (?src @ ?dst)))"
  let ?g = "\<lparr> num_nodes = ?n, edges = zip ?src ?dst, ndata = Map.empty, edata = Map.empty \<rparr>"
  have g: "dgl_graph (?src, ?dst) = Inr ?g"
    by (rule dgl_graph_same_length) simp
  have bound: "x < ?n" if "x \<in> set (?src @ ?dst)" for x
    using infer_bound [OF that] .
  have ends: "u \<in> set (nodes ?g) \<and> v \<in> set (nodes ?g)" if "(u, v) \<in> set (edges ?g)" for u v
  proof -
    from that have "u \<in> set ?src" "v \<in> set ?dst"
      by (auto dest: set_zip_leftD set_zip_rightD)
    then have "u \<in> set (?src @ ?dst)" "v \<in> set (?src @ ?dst)" by auto
    then have "u < ?n" "v < ?n" using bound by blast+
    then show ?thesis by (simp add: nodes_def)
  qed
  have top: "number_of_nodes ?g - 1 \<in> set ?src \<union> set ?dst" if "edges_data \<noteq> []"
  proof -
    from that have ne: "set (?src @ ?dst) \<noteq> {}" by simp
    have "Max (set (?src @ ?dst)) \<in> set (?src @ ?dst)"
      by (rule Max_in) (use ne in auto)
    then show ?thesis using that by (simp add: number_of_nodes_def)
  qed
  show ?thesis
  proof (intro exI [of _ ?g] conjI)
    show "dgl_graph (?src, ?dst) = Inr ?g" by (rule g)
    show "nodes ?g = [0..<number_of_nodes ?g]" by (simp add: nodes_def number_of_nodes_def)
    show "number_of_edges ?g = length edges_data" by (simp add: number_of_edges_def)
    show "\<forall>x \<in> set ?src \<union> set ?dst. x < number_of_nodes ?g"
      using bound by (auto simp: number_of_nodes_def)
    show "\<forall>(u, v) \<in> set (edges ?g). u \<in> set (nodes ?g) \<and> v \<in> set (nodes ?g)"
      using ends by blast
    show "edges_data \<noteq> [] \<longrightarrow> number_of_nodes ?g - 1 \<in> set ?src \<union> set ?dst"
      using top by blast
  qed
qed

theorem dgl_graph_node_ids_witness:
  "\<exists>g. dgl_graph (map Src [\<lparr>Src = 0, Dst = 2, Weight = 1\<rparr>, \<lparr>Src = 2, Dst = 1, Weight = 1\<rparr>],
                   map Dst [\<lparr>Src = 0, Dst = 2, Weight = 1\<rparr>, \<lparr>Src = 2, Dst = 1, Weight = 1\<rparr>]) = Inr g \<and>
       nodes g = [0, 1, 2] \<and> number_of_edges g = 2 \<and> edges g = [(0, 2), (2, 1)] \<and>
       set (edges g) \<subseteq> set (nodes g) \<times> set (nodes g) \<and>
       number_of_nodes g - 1 \<in> {0, 2} \<union> {2, 1}"
proof -
  let ?es = "[\<lparr>Src = 0, Dst = 2, Weight = 1\<rparr>, \<lparr>Src = 2, Dst = 1, Weight = 1\<rparr>]"
  from dgl_graph_node_ids [of ?es]
  obtain g where g: "dgl_graph (map Src ?es, map Dst ?es) = Inr g"
    and n: "nodes g = [0..<number_of_nodes g]" and m: "number_of_edges g = length ?es"
    and ends: "\<forall>(u, v) \<in> set (edges g). u \<in> set (nodes g) \<and> v \<in> set (nodes g)"
    and top: "?es \<noteq> [] \<longrightarrow> number_of_nodes g - 1 \<in> set (map Src ?es) \<union> set (map Dst ?es)"
    by blast
  from g have "number_of_nodes g = 3" "edges g = [(0, 2), (2, 1)]"
    by (auto simp: dgl_graph_def number_of_nodes_def)
  moreover from ends have "set (edges g) \<subseteq> set (nodes g) \<times> set (nodes g)" by auto
  moreover from top have "number_of_nodes g - 1 \<in> {0, 2} \<union> {2, 1}" by simp
  ultimately show ?thesis using g n m by (auto simp: upt_rec)
qed


section \<open>Feature assignment and deletion\<close>

lemma set_ndata_frame:
  "set_ndata g key t = Inr g' \<Longrightarrow>
   num_nodes g' = num_nodes g \<and> edges g' = edges g \<and> edata g' = edata g \<and>
   ndata g' = (ndata g)(key \<mapsto> t)"
  by (auto simp: set_ndata_def split: if_splits)

lemma set_edata_frame:
  "set_edata g key t = Inr g' \<Longrightarrow>
   num_nodes g' = num_nodes g \<and> edges g' = edges g \<and> ndata g' = ndata g \<and>
   edata g' = (edata g)(key \<mapsto> t)"
  by (auto simp: set_edata_def split: if_splits)

lemma del_ndata_frame:
  "del_ndata g key = Inr g' \<Longrightarrow>
   num_nodes g' = num_nodes g \<and> edges g' = edges g \<and> edata g' = edata g \<and>
   ndata g' = (ndata g)(key := None)"
  by (auto simp: del_ndata_def split: option.splits)

lemma update_ndata_frame:
  "update_ndata g kvs = Inr g' \<Longrightarrow>
   num_nodes g' = num_nodes g \<and> edges g' = edges g \<and> edata g' = edata g"
proof (induction kvs arbitrary: g)
  case Nil
  then show ?case by simp
next
  case (Cons kv kvs)
  obtain key t where kv: "kv = (key, t)" by (cases kv)
  from Cons.prems kv obtain g1 where g1: "set_ndata g key t = Inr g1"
    and rest: "update_ndata g1 kvs = Inr g'"
    by (auto split: sum.splits)
  from Cons.IH [OF rest] set_ndata_frame [OF g1] show ?case by simp
qed

lemma update_ndata_two:
  "update_ndata g [(k1, t1), (k2, t2)] = Inr g' \<Longrightarrow>
   ndata g' = (ndata g)(k1 \<mapsto> t1, k2 \<mapsto> t2)"
  by (auto simp: set_ndata_def split: sum.splits if_splits)


section \<open>The feature operations in the notebook's order\<close>

text \<open>
  C8. Setting the 'age' node feature, updating the node features with 'club' and
  'club_onehot', setting the 'weight' edge feature and deleting 'age' leave the number
  of nodes and the edge list as they were. Deleting 'age' removes that key and no
  other: 'club', 'club_onehot' and every other node feature, and the edge features, are
  as before. Applied in the notebook's order to the graph built from the edge table,
  the four operations leave a graph with the nodes and edges of the graph built, the
  node features 'club' and 'club_onehot' only, and the edge feature 'weight' only.
\<close>

theorem feature_ops_frame:
  "(set_ndata g ''age'' age = Inr g1 \<longrightarrow>
      num_nodes g1 = num_nodes g \<and> edges g1 = edges g) \<and>
   (update_ndata g [(''club'', club), (''club_onehot'', club_onehot)] = Inr g2 \<longrightarrow>
      num_nodes g2 = num_nodes g \<and> edges g2 = edges g) \<and>
   (set_edata g ''weight'' edge_weight = Inr g3 \<longrightarrow>
      num_nodes g3 = num_nodes g \<and> edges g3 = edges g \<and> ndata g3 = ndata g) \<and>
   (del_ndata g ''age'' = Inr g4 \<longrightarrow>
      num_nodes g4 = num_nodes g \<and> edges g4 = edges g \<and> edata g4 = edata g \<and>
      ndata g4 ''age'' = None \<and>
      ndata g4 ''club'' = ndata g ''club'' \<and>
      ndata g4 ''club_onehot'' = ndata g ''club_onehot'' \<and>
      (\<forall>key. key \<noteq> ''age'' \<longrightarrow> ndata g4 key = ndata g key)) \<and>
   (dgl_graph (map Src edges_data, map Dst edges_data) = Inr g0 \<and>
    set_ndata g0 ''age'' age = Inr ga \<and>
    update_ndata ga [(''club'', club), (''club_onehot'', club_onehot)] = Inr gb \<and>
    del_ndata gb ''age'' = Inr gc \<and>
    set_edata gc ''weight'' edge_weight = Inr g5 \<longrightarrow>
      num_nodes g5 = num_nodes g0 \<and> edges g5 = edges g0 \<and>
      edges g5 = zip (map Src edges_data) (map Dst edges_data) \<and>
      ndata g5 = [''club'' \<mapsto> club, ''club_onehot'' \<mapsto> club_onehot] \<and>
      dom (ndata g5) = {''club'', ''club_onehot''} \<and>
      edata g5 = [''weight'' \<mapsto> edge_weight])"
proof (intro conjI impI)
  assume "set_ndata g ''age'' age = Inr g1"
  from set_ndata_frame [OF this] show "num_nodes g1 = num_nodes g" "edges g1 = edges g"
    by simp_all
next
  assume "update_ndata g [(''club'', club), (''club_onehot'', club_onehot)] = Inr g2"
  from update_ndata_frame [OF this] show "num_nodes g2 = num_nodes g" "edges g2 = edges g"
    by simp_all
next
  assume "set_edata g ''weight'' edge_weight = Inr g3"
  from set_edata_frame [OF this]
  show "num_nodes g3 = num_nodes g" "edges g3 = edges g" "ndata g3 = ndata g"
    by simp_all
next
  assume "del_ndata g ''age'' = Inr g4"
  from del_ndata_frame [OF this]
  show "num_nodes g4 = num_nodes g" "edges g4 = edges g" "edata g4 = edata g"
    "ndata g4 ''age'' = None" "ndata g4 ''club'' = ndata g ''club''"
    "ndata g4 ''club_onehot'' = ndata g ''club_onehot''"
    "\<forall>key. key \<noteq> ''age'' \<longrightarrow> ndata g4 key = ndata g key"
    by simp_all
next
  assume chain: "dgl_graph (map Src edges_data, map Dst edges_data) = Inr g0 \<and>
    set_ndata g0 ''age'' age = Inr ga \<and>
    update_ndata ga [(''club'', club), (''club_onehot'', club_onehot)] = Inr gb \<and>
    del_ndata gb ''age'' = Inr gc \<and>
    set_edata gc ''weight'' edge_weight = Inr g5"
  then have g0: "dgl_graph (map Src edges_data, map Dst edges_data) = Inr g0"
    and ga: "set_ndata g0 ''age'' age = Inr ga"
    and gb: "update_ndata ga [(''club'', club), (''club_onehot'', club_onehot)] = Inr gb"
    and gc: "del_ndata gb ''age'' = Inr gc"
    and g5: "set_edata gc ''weight'' edge_weight = Inr g5"
    by simp_all
  have built: "ndata g0 = Map.empty" "edata g0 = Map.empty"
    "edges g0 = zip (map Src edges_data) (map Dst edges_data)"
    using g0 by (auto simp: dgl_graph_def split: if_splits)
  note f1 = set_ndata_frame [OF ga] and f2 = update_ndata_frame [OF gb]
    and f2' = update_ndata_two [OF gb] and f3 = del_ndata_frame [OF gc]
    and f4 = set_edata_frame [OF g5]
  show "num_nodes g5 = num_nodes g0" "edges g5 = edges g0"
    using f1 f2 f3 f4 by simp_all
  then show "edges g5 = zip (map Src edges_data) (map Dst edges_data)"
    using built by simp
  show keys: "ndata g5 = [''club'' \<mapsto> club, ''club_onehot'' \<mapsto> club_onehot]"
    using f1 f2' f3 f4 built by (auto simp: fun_eq_iff)
  show "dom (ndata g5) = {''club'', ''club_onehot''}"
    unfolding keys by auto
  show "edata g5 = [''weight'' \<mapsto> edge_weight]"
    using f1 f2 f3 f4 built by simp
qed

theorem feature_ops_frame_witness:
  "(\<exists>g1. set_ndata example_pair ''age'' (FloatTensor1 [9 / 20, 33 / 100]) = Inr g1 \<and>
         num_nodes g1 = 2 \<and> edges g1 = [(0, 1), (1, 0)]) \<and>
   (\<exists>g2. update_ndata example_pair
            [(''club'', LongTensor1 [0, 1]), (''club_onehot'', LongTensor2 [[1, 0], [0, 1]])] = Inr g2 \<and>
         num_nodes g2 = 2 \<and> edges g2 = [(0, 1), (1, 0)]) \<and>
   (\<exists>g3. set_edata example_pair ''weight'' (FloatTensor1 [1 / 2, 1 / 2]) = Inr g3 \<and>
         num_nodes g3 = 2 \<and> edges g3 = [(0, 1), (1, 0)]) \<and>
   (\<exists>g4. del_ndata (example_pair\<lparr>ndata := [''age'' \<mapsto> FloatTensor1 [9 / 20, 33 / 100],
                                           ''club'' \<mapsto> LongTensor1 [0, 1]]\<rparr>) ''age'' = Inr g4 \<and>
         num_nodes g4 = 2 \<and> edges g4 = [(0, 1), (1, 0)] \<and>
         ndata g4 ''age'' = None \<and> ndata g4 ''club'' = Some (LongTensor1 [0, 1])) \<and>
   (\<exists>ga gb gc g5.
         dgl_graph (map Src [\<lparr>Src = 0, Dst = 1, Weight = 1 / 2\<rparr>, \<lparr>Src = 1, Dst = 0, Weight = 1 / 2\<rparr>],
                    map Dst [\<lparr>Src = 0, Dst = 1, Weight = 1 / 2\<rparr>, \<lparr>Src = 1, Dst = 0, Weight = 1 / 2\<rparr>])
           = Inr example_pair \<and>
         set_ndata example_pair ''age'' (FloatTensor1 [9 / 20, 33 / 100]) = Inr ga \<and>
         update_ndata ga [(''club'', LongTensor1 [0, 1]),
                          (''club_onehot'', LongTensor2 [[1, 0], [0, 1]])] = Inr gb \<and>
         del_ndata gb ''age'' = Inr gc \<and>
         set_edata gc ''weight'' (FloatTensor1 [1 / 2, 1 / 2]) = Inr g5 \<and>
         num_nodes g5 = 2 \<and> edges g5 = [(0, 1), (1, 0)] \<and>
         dom (ndata g5) = {''club'', ''club_onehot''} \<and>
         edata g5 = [''weight'' \<mapsto> FloatTensor1 [1 / 2, 1 / 2]])"
proof -
  let ?aged = "example_pair\<lparr>ndata := [''age'' \<mapsto> FloatTensor1 [9 / 20, 33 / 100],
                                     ''club'' \<mapsto> LongTensor1 [0, 1]]\<rparr>"
  let ?es = "[\<lparr>Src = 0, Dst = 1, Weight = 1 / 2\<rparr>, \<lparr>Src = 1, Dst = 0, Weight = 1 / 2\<rparr>]"
  let ?age = "FloatTensor1 [9 / 20, 33 / 100]" and ?club = "LongTensor1 [0, 1]"
  let ?oh = "LongTensor2 [[1, 0], [0, 1]]" and ?w = "FloatTensor1 [1 / 2, 1 / 2]"
  have base: "num_nodes example_pair = 2" "edges example_pair = [(0, 1), (1, 0)]"
    "num_nodes ?aged = 2" "edges ?aged = [(0, 1), (1, 0)]"
    "ndata ?aged ''club'' = Some (LongTensor1 [0, 1])"
    by (simp_all add: example_pair_def)
  have g0: "dgl_graph (map Src ?es, map Dst ?es) = Inr example_pair"
    by (simp add: dgl_graph_def example_pair_def)
  obtain g1 where g1: "set_ndata example_pair ''age'' ?age = Inr g1"
    by (simp add: set_ndata_def example_pair_def)
  obtain g2 where g2: "update_ndata example_pair [(''club'', ?club), (''club_onehot'', ?oh)] = Inr g2"
    by (simp add: set_ndata_def example_pair_def)
  obtain g3 where g3: "set_edata example_pair ''weight'' ?w = Inr g3"
    by (simp add: set_edata_def example_pair_def)
  obtain g4 where g4: "del_ndata ?aged ''age'' = Inr g4"
    by (simp add: del_ndata_def example_pair_def)
  note f1 = feature_ops_frame [where g = example_pair and ?g1.0 = g1, THEN conjunct1, THEN mp, OF g1]
  note f2 = feature_ops_frame [where g = example_pair and ?g2.0 = g2,
      THEN conjunct2, THEN conjunct1, THEN mp, OF g2]
  note f3 = feature_ops_frame [where g = example_pair and ?g3.0 = g3,
      THEN conjunct2, THEN conjunct2, THEN conjunct1, THEN mp, OF g3]
  note f4 = feature_ops_frame [where g = ?aged and ?g4.0 = g4,
      THEN conjunct2, THEN conjunct2, THEN conjunct2, THEN conjunct1, THEN mp, OF g4]
  from f1 g1 have n1: "num_nodes g1 = 2" using base by simp
  obtain gb where gb: "update_ndata g1 [(''club'', ?club), (''club_onehot'', ?oh)] = Inr gb"
    using n1 by (simp add: set_ndata_def)
  have "ndata gb ''age'' \<noteq> None"
    using update_ndata_two [OF gb] set_ndata_frame [OF g1] by simp
  then obtain gc where gc: "del_ndata gb ''age'' = Inr gc"
    by (auto simp: del_ndata_def)
  have "length (edges gc) = 2"
    using del_ndata_frame [OF gc] update_ndata_frame [OF gb] f1 base by simp
  then obtain g5 where g5: "set_edata gc ''weight'' ?w = Inr g5"
    by (simp add: set_edata_def)
  have chain: "dgl_graph (map Src ?es, map Dst ?es) = Inr example_pair \<and>
    set_ndata example_pair ''age'' ?age = Inr g1 \<and>
    update_ndata g1 [(''club'', ?club), (''club_onehot'', ?oh)] = Inr gb \<and>
    del_ndata gb ''age'' = Inr gc \<and>
    set_edata gc ''weight'' ?w = Inr g5"
    using g0 g1 gb gc g5 by (intro conjI)
  note f5 = feature_ops_frame [where edges_data = ?es and ?g0.0 = example_pair and age = ?age
      and ga = g1 and club = ?club and club_onehot = ?oh and gb = gb and gc = gc
      and edge_weight = ?w and ?g5.0 = g5,
      THEN conjunct2, THEN conjunct2, THEN conjunct2, THEN conjunct2, THEN mp, OF chain]
  show ?thesis
  proof (intro conjI)
    show "\<exists>g1. set_ndata example_pair ''age'' ?age = Inr g1 \<and>
         num_nodes g1 = 2 \<and> edges g1 = [(0, 1), (1, 0)]"
      using g1 f1 base by auto
    show "\<exists>g2. update_ndata example_pair [(''club'', ?club), (''club_onehot'', ?oh)] = Inr g2 \<and>
         num_nodes g2 = 2 \<and> edges g2 = [(0, 1), (1, 0)]"
      using g2 f2 base by auto
    show "\<exists>g3. set_edata example_pair ''weight'' ?w = Inr g3 \<and>
         num_nodes g3 = 2 \<and> edges g3 = [(0, 1), (1, 0)]"
      using g3 f3 base by auto
    show "\<exists>g4. del_ndata ?aged ''age'' = Inr g4 \<and>
         num_nodes g4 = 2 \<and> edges g4 = [(0, 1), (1, 0)] \<and>
         ndata g4 ''age'' = None \<and> ndata g4 ''club'' = Some (LongTensor1 [0, 1])"
      using g4 f4 base by auto
    have "num_nodes g5 = 2" "edges g5 = [(0, 1), (1, 0)]"
      using f5 [THEN conjunct1] f5 [THEN conjunct2, THEN conjunct1] base by simp_all
    moreover note f5 [THEN conjunct2, THEN conjunct2, THEN conjunct2, THEN conjunct2, THEN conjunct1]
      f5 [THEN conjunct2, THEN conjunct2, THEN conjunct2, THEN conjunct2, THEN conjunct2]
    ultimately have "num_nodes g5 = 2 \<and> edges g5 = [(0, 1), (1, 0)] \<and>
          dom (ndata g5) = {''club'', ''club_onehot''} \<and> edata g5 = [''weight'' \<mapsto> ?w]"
      by (intro conjI)
    with chain have "dgl_graph (map Src ?es, map Dst ?es) = Inr example_pair \<and>
         set_ndata example_pair ''age'' ?age = Inr g1 \<and>
         update_ndata g1 [(''club'', ?club), (''club_onehot'', ?oh)] = Inr gb \<and>
         del_ndata gb ''age'' = Inr gc \<and>
         set_edata gc ''weight'' ?w = Inr g5 \<and>
         num_nodes g5 = 2 \<and> edges g5 = [(0, 1), (1, 0)] \<and>
         dom (ndata g5) = {''club'', ''club_onehot''} \<and>
         edata g5 = [''weight'' \<mapsto> ?w]"
      by (elim conjE, intro conjI)
    then show "\<exists>ga gb gc g5.
         dgl_graph (map Src ?es, map Dst ?es) = Inr example_pair \<and>
         set_ndata example_pair ''age'' ?age = Inr ga \<and>
         update_ndata ga [(''club'', ?club), (''club_onehot'', ?oh)] = Inr gb \<and>
         del_ndata gb ''age'' = Inr gc \<and>
         set_edata gc ''weight'' ?w = Inr g5 \<and>
         num_nodes g5 = 2 \<and> edges g5 = [(0, 1), (1, 0)] \<and>
         dom (ndata g5) = {''club'', ''club_onehot''} \<and>
         edata g5 = [''weight'' \<mapsto> ?w]"
      by (intro exI [of _ g1] exI [of _ gb] exI [of _ gc] exI [of _ g5])
  qed
qed


section \<open>The run of the first notebook\<close>




section \<open>The model\<close>

lemma F_relu_nth:
  "i < length h \<Longrightarrow> j < length (h ! i) \<Longrightarrow> F_relu h ! i ! j = (if h ! i ! j < 0 then 0 else h ! i ! j)"
  by (simp add: F_relu_def max_def)

lemma F_relu_shape:
  "length (F_relu h) = length h \<and> (\<forall>i < length h. length (F_relu h ! i) = length (h ! i))"
  by (simp add: F_relu_def)

text \<open>
  C1. The forward pass is the second convolution applied to the ReLU of the first
  convolution of the input, on the same graph: when the first layer raises, so does the
  forward pass; otherwise its result is whatever the second layer returns, with nothing
  applied after it. The ReLU keeps the shape and replaces negative entries by 0. The
  model the notebook builds has these two layers, both with the mean aggregator.
\<close>

theorem forward_two_layers:
  "forward net st g x =
     (case conv_call (conv1 net) g (\<lambda>n. st (Conv1 n)) x of
        Inl e \<Rightarrow> Inl e
      | Inr h1 \<Rightarrow> conv_call (conv2 net) g (\<lambda>n. st (Conv2 n)) (F_relu h1)) \<and>
   length (F_relu h) = length h \<and>
   (\<forall>i j. i < length h \<and> j < length (h ! i) \<longrightarrow>
      length (F_relu h ! i) = length (h ! i) \<and>
      F_relu h ! i ! j = (if h ! i ! j < 0 then 0 else h ! i ! j)) \<and>
   conv1 (GraphSAGE_init SAGEConv in_feats h_feats num_classes) = SAGEConv in_feats h_feats ''mean'' \<and>
   conv2 (GraphSAGE_init SAGEConv in_feats h_feats num_classes) = SAGEConv h_feats num_classes ''mean''"
proof (intro conjI allI impI)
  show "conv1 (GraphSAGE_init SAGEConv in_feats h_feats num_classes) = SAGEConv in_feats h_feats ''mean''"
    and "conv2 (GraphSAGE_init SAGEConv in_feats h_feats num_classes) = SAGEConv h_feats num_classes ''mean''"
    by (simp_all add: GraphSAGE_init_def)
  show "forward net st g x =
     (case conv_call (conv1 net) g (\<lambda>n. st (Conv1 n)) x of
        Inl e \<Rightarrow> Inl e
      | Inr h1 \<Rightarrow> conv_call (conv2 net) g (\<lambda>n. st (Conv2 n)) (F_relu h1))"
    by (simp add: forward_def split: sum.splits)
  show "length (F_relu h) = length h" by (simp add: F_relu_def)
next
  fix i j assume "i < length h \<and> j < length (h ! i)"
  then show "length (F_relu h ! i) = length (h ! i)"
    and "F_relu h ! i ! j = (if h ! i ! j < 0 then 0 else h ! i ! j)"
    using F_relu_nth F_relu_shape by auto
qed

theorem forward_two_layers_witness:
  "forward \<lparr> conv1 = shift_conv, conv2 = shift_conv \<rparr> (\<lambda>p. [])
     \<lparr>num_nodes = 1, edges = [], ndata = Map.empty, edata = Map.empty\<rparr> [[2, - 3]]
   = Inr [[0, - 1]] \<and>
   F_relu [[1, - 4]] ! 0 ! 1 = 0 \<and> F_relu [[1, - 4]] ! 0 ! 0 = 1"
proof -
  note inst = forward_two_layers [of "\<lparr> conv1 = shift_conv, conv2 = shift_conv \<rparr>" "\<lambda>p. []"
      "\<lparr>num_nodes = 1, edges = [], ndata = Map.empty, edata = Map.empty\<rparr>" "[[2, - 3]]" "[[1, - 4]]"]
  have "forward \<lparr> conv1 = shift_conv, conv2 = shift_conv \<rparr> (\<lambda>p. [])
     \<lparr>num_nodes = 1, edges = [], ndata = Map.empty, edata = Map.empty\<rparr> [[2, - 3]] = Inr [[0, - 1]]"
    using inst [THEN conjunct1] by (simp add: shift_conv_def F_relu_def)
  moreover have "F_relu [[1, - 4]] ! 0 ! 1 = (0 :: real)"
    using inst [THEN conjunct2, THEN conjunct2, THEN conjunct1, THEN spec, THEN spec, of 0 1] by simp
  moreover have "F_relu [[1, - 4]] ! 0 ! 0 = (1 :: real)"
    using inst [THEN conjunct2, THEN conjunct2, THEN conjunct1, THEN spec, THEN spec, of 0 0] by simp
  ultimately show ?thesis by (intro conjI)
qed


section \<open>The optimizer step\<close>

lemma step_param_other:
  "p \<noteq> q \<Longrightarrow> step_param rule grads q (os, st) = (os', st') \<Longrightarrow> os' p = os p \<and> st' p = st p"
  by (auto simp: step_param_def split: option.splits prod.splits)

lemma fold_step_param_other:
  "p \<notin> set ps \<Longrightarrow> fold (step_param rule grads) ps (os, st) = (os', st') \<Longrightarrow>
   os' p = os p \<and> st' p = st p"
proof (induction ps arbitrary: os st)
  case Nil
  then show ?case by simp
next
  case (Cons q ps)
  obtain os1 st1 where q: "step_param rule grads q (os, st) = (os1, st1)"
    by (cases "step_param rule grads q (os, st)")
  from Cons.prems have "p \<noteq> q" "p \<notin> set ps" by auto
  from step_param_other [OF this(1) q] Cons.IH [OF this(2), of os1 st1] Cons.prems(2) q
  show ?case by simp
qed

lemma optimizer_step_frame:
  assumes "optimizer_step rule opt grads st = (opt', st')"
  shows "param_groups opt' = param_groups opt \<and> (\<forall>p. p \<notin> set (param_groups opt) \<longrightarrow> st' p = st p)"
proof -
  obtain os1 st1 where f: "fold (step_param rule grads) (param_groups opt) (opt_state opt, st) = (os1, st1)"
    by (cases "fold (step_param rule grads) (param_groups opt) (opt_state opt, st)")
  with assms have "opt' = opt\<lparr>opt_state := os1\<rparr>" "st' = st1"
    by (simp_all add: optimizer_step_def)
  with fold_step_param_other [OF _ f] show ?thesis by simp
qed

lemma optimizer_step_last:
  assumes pg: "param_groups opt = ps @ [p]" and nin: "p \<notin> set ps"
    and step: "optimizer_step rule opt grads st = (opt', st')"
  shows "st' p = (case grads p of None \<Rightarrow> st p | Some gr \<Rightarrow> snd (rule (opt_state opt p) (st p) gr))"
proof -
  obtain os1 st1 where f: "fold (step_param rule grads) ps (opt_state opt, st) = (os1, st1)"
    by (cases "fold (step_param rule grads) ps (opt_state opt, st)")
  from fold_step_param_other [OF nin f] have same: "os1 p = opt_state opt p" "st1 p = st p"
    by simp_all
  from step pg f have "snd (step_param rule grads p (os1, st1)) = st'"
    by (auto simp: optimizer_step_def split: prod.splits)
  then show ?thesis
    using same by (auto simp: step_param_def split: option.splits prod.splits)
qed

lemma inputs_not_in_parameters: "NodeEmbedWeight \<notin> set (parameters net)"
  by (auto simp: parameters_def)


section \<open>The loss\<close>

lemma getitem_labeled_nodes:
  "33 < length t \<Longrightarrow> getitem t labeled_nodes = Inr [t ! 0, t ! 33]"
  by (cases t) (simp_all add: labeled_nodes_def)

text \<open>With fewer than 34 rows the indexing raises, and with it the loss.\<close>

lemma getitem_labeled_nodes_short:
  "\<not> 33 < length t \<Longrightarrow> \<exists>e. getitem t labeled_nodes = Inl e"
  by (simp add: labeled_nodes_def)

lemma F_nll_loss_two:
  assumes "0 \<le> t0" "t0 < int (length r0)" "0 \<le> t1" "t1 < int (length r1)"
  shows "F_nll_loss [r0, r1] [t0, t1] = Inr (- (r0 ! nat t0 + r1 ! nat t1) / 2)"
  using assms by (simp add: F_nll_loss_def)

lemma compute_loss_value:
  assumes "33 < length lg" "33 < length labels"
    and "0 \<le> labels ! 0" "labels ! 0 < int (length (lg ! 0))"
    and "0 \<le> labels ! 33" "labels ! 33 < int (length (lg ! 33))"
  shows "compute_loss lg labels =
           Inr (- (log_softmax_row (lg ! 0) ! nat (labels ! 0) +
                   log_softmax_row (lg ! 33) ! nat (labels ! 33)) / 2)"
proof -
  have "0 < length lg" using assms(1) by arith
  then have lp: "getitem (F_log_softmax lg) labeled_nodes =
              Inr [log_softmax_row (lg ! 0), log_softmax_row (lg ! 33)]"
    using assms(1) by (simp add: getitem_labeled_nodes F_log_softmax_def)
  have tg: "getitem labels labeled_nodes = Inr [labels ! 0, labels ! 33]"
    using assms(2) by (rule getitem_labeled_nodes)
  have "F_nll_loss [log_softmax_row (lg ! 0), log_softmax_row (lg ! 33)] [labels ! 0, labels ! 33] =
          Inr (- (log_softmax_row (lg ! 0) ! nat (labels ! 0) +
                  log_softmax_row (lg ! 33) ! nat (labels ! 33)) / 2)"
    by (rule F_nll_loss_two) (use assms in \<open>simp_all add: log_softmax_row_def\<close>)
  then show ?thesis by (simp add: compute_loss_def lp tg)
qed

text \<open>What one completed pass through the loop body leaves behind, and when a pass completes.\<close>

lemma epoch_Inr:
  assumes "epoch lib net g labels e s = Inr s'"
  shows "\<exists>lg l. forward net (params s) g (params s inputs) = Inr lg \<and>
           compute_loss lg labels = Inr l \<and>
           all_logits s' = all_logits s @ [lg] \<and> logits s' = Some lg \<and> loss s' = Some l \<and>
           stdout s' = (if e mod 5 = 0 then stdout s @ [(e, l)] else stdout s) \<and>
           (params s', optimizer s') =
             (case optimizer_step (adam_rule lib) (optimizer s)
                     (autograd lib (loss_of net g labels) (params s)) (params s) of
                (opt', st') \<Rightarrow> (st', opt'))"
  using assms
  by (auto simp: epoch_def Let_def split: sum.splits prod.splits)

lemma epoch_succeeds:
  assumes "loss_of net g labels (params s) = Inr l"
  shows "\<exists>s'. epoch lib net g labels e s = Inr s'"
  using assms
  by (auto simp: epoch_def loss_of_def Let_def split: sum.splits prod.splits)

lemma example_forward:
  "forward (net_of example_SAGEConv) st example_graph x = Inr (replicate 34 [0, 0])"
  by (simp add: forward_def net_of_def GraphSAGE_init_def example_SAGEConv_def example_graph_def
      numeral_2_eq_2)

lemma example_loss_of:
  "\<exists>l. loss_of (net_of example_SAGEConv) example_graph (replicate 34 0) st = Inr l"
proof -
  have "\<exists>l. compute_loss (replicate 34 [0, 0]) (replicate 34 0) = Inr l"
    by (subst compute_loss_value) simp_all
  then show ?thesis by (simp add: loss_of_def example_forward)
qed

text \<open>The sum of exponentials of a non-empty row is positive, so its logarithm is the real one.\<close>

lemma sum_exp_pos: "row \<noteq> [] \<Longrightarrow> 0 < (\<Sum>y\<leftarrow>row. exp (y::real))"
proof (induction row)
  case Nil
  then show ?case by simp
next
  case (Cons x xs)
  have "0 < exp x" by simp
  moreover have "0 \<le> (\<Sum>y\<leftarrow>xs. exp y)" by (rule sum_list_nonneg) auto
  ultimately have "0 < exp x + (\<Sum>y\<leftarrow>xs. exp y)" by (rule add_pos_nonneg)
  then show ?case by simp
qed

lemma log_softmax_row_ln:
  assumes "k < length row"
  shows "log_softmax_row row ! k = ln (exp (row ! k) / (\<Sum>y\<leftarrow>row. exp y))"
proof -
  from assms have "row \<noteq> []" by auto
  then have pos: "0 < (\<Sum>y\<leftarrow>row. exp y)" by (rule sum_exp_pos)
  have "ln (exp (row ! k) / (\<Sum>y\<leftarrow>row. exp y)) = row ! k - ln (\<Sum>y\<leftarrow>row. exp y)"
    using pos by (simp add: ln_div)
  then show ?thesis using assms by (simp add: log_softmax_row_def)
qed

lemma log_softmax_row_normalised:
  assumes "row \<noteq> []"
  shows "(\<Sum>x\<leftarrow>log_softmax_row row. exp x) = 1"
proof -
  let ?S = "\<Sum>y\<leftarrow>row. exp y"
  have pos: "0 < ?S" using assms by (rule sum_exp_pos)
  have "(\<Sum>x\<leftarrow>log_softmax_row row. exp x) = (\<Sum>x\<leftarrow>row. exp x * inverse ?S)"
    using pos by (simp add: log_softmax_row_def comp_def exp_diff exp_ln divide_inverse)
  also have "\<dots> = ?S * inverse ?S"
    by (simp add: sum_list_mult_const)
  also have "\<dots> = 1" using pos by simp
  finally show ?thesis .
qed

lemma compute_loss_cross_entropy:
  assumes "33 < length lg" "33 < length labels"
    and "0 \<le> labels ! 0" "labels ! 0 < int (length (lg ! 0))"
    and "0 \<le> labels ! 33" "labels ! 33 < int (length (lg ! 33))"
  shows "compute_loss lg labels =
           Inr (- (ln (exp (lg ! 0 ! nat (labels ! 0)) / (\<Sum>y\<leftarrow>lg ! 0. exp y)) +
                   ln (exp (lg ! 33 ! nat (labels ! 33)) / (\<Sum>y\<leftarrow>lg ! 33. exp y))) / 2)"
proof -
  have "nat (labels ! 0) < length (lg ! 0)" "nat (labels ! 33) < length (lg ! 33)"
    using assms by simp_all
  then show ?thesis
    using compute_loss_value [OF assms] by (simp add: log_softmax_row_ln)
qed

lemma loss_of_forward:
  "loss_of net g labels st =
     (case forward net st g (st inputs) of Inl e \<Rightarrow> Inl e | Inr lg \<Rightarrow> compute_loss lg labels)"
  by (simp add: loss_of_def)

lemma epoch_objective:
  assumes "epoch lib net g labels e s = Inr s'"
  shows "\<exists>lg l. forward net (params s) g (params s inputs) = Inr lg \<and>
           logits s' = Some lg \<and> loss s' = Some l \<and> compute_loss lg labels = Inr l \<and>
           loss_of net g labels (params s) = Inr l \<and>
           optimizer_step (adam_rule lib) (optimizer s)
             (autograd lib (loss_of net g labels) (params s)) (params s) = (optimizer s', params s')"
proof -
  from epoch_Inr [OF assms] obtain lg l where
    fw: "forward net (params s) g (params s inputs) = Inr lg"
    and cl: "compute_loss lg labels = Inr l"
    and rest: "logits s' = Some lg" "loss s' = Some l"
    and st: "(params s', optimizer s') =
             (case optimizer_step (adam_rule lib) (optimizer s)
                     (autograd lib (loss_of net g labels) (params s)) (params s) of
                (opt', st') \<Rightarrow> (st', opt'))"
    by blast
  have lo: "loss_of net g labels (params s) = Inr l"
    using fw cl by (simp add: loss_of_def)
  have "optimizer_step (adam_rule lib) (optimizer s)
             (autograd lib (loss_of net g labels) (params s)) (params s) = (optimizer s', params s')"
    using st by (auto split: prod.splits)
  with fw cl rest lo show ?thesis by blast
qed

lemma ln_half: "ln (1 / 2 :: real) = - ln 2"
  by (simp add: ln_div)

text \<open>
  C2. With at least 34 rows of logits and 34 labels, and the labels of nodes 0 and 33
  among the classes, the loss of the loop body is the cross-entropy over the nodes 0 and 33:
  the mean, over these two nodes, of minus the logarithm of the softmax probability
  \<open>exp (lg ! i ! label) / (\<Sum>y\<leftarrow>lg ! i. exp y)\<close> of the node's label. Any other logits and
  labels that agree with these on the nodes 0 and 33 give the same loss: the other 32
  nodes do not enter it. The log-softmax of a non-empty row is the logarithm of a
  probability vector: its exponentials sum to 1. The objective \<open>loss_of\<close> is this loss of the
  forward pass's output, and in every epoch that completes, the loss stored and printed is
  its value at the epoch's parameters, and the parameters are stepped along the gradient
  that the library computes of \<open>loss_of\<close> itself.
\<close>

theorem loss_on_labeled_nodes:
  "(33 < length lg \<and> 33 < length labels \<and>
    0 \<le> labels ! 0 \<and> labels ! 0 < int (length (lg ! 0)) \<and>
    0 \<le> labels ! 33 \<and> labels ! 33 < int (length (lg ! 33)) \<longrightarrow>
      compute_loss lg labels =
        Inr (- (ln (exp (lg ! 0 ! nat (labels ! 0)) / (\<Sum>y\<leftarrow>lg ! 0. exp y)) +
                ln (exp (lg ! 33 ! nat (labels ! 33)) / (\<Sum>y\<leftarrow>lg ! 33. exp y))) / 2) \<and>
      compute_loss lg labels =
        Inr (- (log_softmax_row (lg ! 0) ! nat (labels ! 0) +
                log_softmax_row (lg ! 33) ! nat (labels ! 33)) / 2) \<and>
      (\<forall>lg' labels'.
         33 < length lg' \<and> 33 < length labels' \<and>
         lg' ! 0 = lg ! 0 \<and> lg' ! 33 = lg ! 33 \<and>
         labels' ! 0 = labels ! 0 \<and> labels' ! 33 = labels ! 33 \<longrightarrow>
           compute_loss lg' labels' = compute_loss lg labels)) \<and>
   (row \<noteq> [] \<longrightarrow>
      (\<Sum>x\<leftarrow>log_softmax_row row. exp x) = 1 \<and>
      (\<forall>k < length row. log_softmax_row row ! k = ln (exp (row ! k) / (\<Sum>y\<leftarrow>row. exp y)))) \<and>
   loss_of net g labels st =
     (case forward net st g (st inputs) of Inl err \<Rightarrow> Inl err | Inr lg \<Rightarrow> compute_loss lg labels) \<and>
   (epoch lib net g labels e s = Inr s' \<longrightarrow>
      (\<exists>lg l. forward net (params s) g (params s inputs) = Inr lg \<and>
         logits s' = Some lg \<and> loss s' = Some l \<and> compute_loss lg labels = Inr l \<and>
         loss_of net g labels (params s) = Inr l \<and>
         optimizer_step (adam_rule lib) (optimizer s)
           (autograd lib (loss_of net g labels) (params s)) (params s) = (optimizer s', params s')))"
proof (intro conjI impI allI)
  assume h: "33 < length lg \<and> 33 < length labels \<and>
    0 \<le> labels ! 0 \<and> labels ! 0 < int (length (lg ! 0)) \<and>
    0 \<le> labels ! 33 \<and> labels ! 33 < int (length (lg ! 33))"
  then show "compute_loss lg labels =
        Inr (- (ln (exp (lg ! 0 ! nat (labels ! 0)) / (\<Sum>y\<leftarrow>lg ! 0. exp y)) +
                ln (exp (lg ! 33 ! nat (labels ! 33)) / (\<Sum>y\<leftarrow>lg ! 33. exp y))) / 2)"
    by (intro compute_loss_cross_entropy) simp_all
  from h show v: "compute_loss lg labels =
        Inr (- (log_softmax_row (lg ! 0) ! nat (labels ! 0) +
                log_softmax_row (lg ! 33) ! nat (labels ! 33)) / 2)"
    by (intro compute_loss_value) simp_all
  fix lg' labels'
  assume h': "33 < length lg' \<and> 33 < length labels' \<and>
         lg' ! 0 = lg ! 0 \<and> lg' ! 33 = lg ! 33 \<and>
         labels' ! 0 = labels ! 0 \<and> labels' ! 33 = labels ! 33"
  with h have "compute_loss lg' labels' =
        Inr (- (log_softmax_row (lg' ! 0) ! nat (labels' ! 0) +
                log_softmax_row (lg' ! 33) ! nat (labels' ! 33)) / 2)"
    by (intro compute_loss_value) simp_all
  with v h' show "compute_loss lg' labels' = compute_loss lg labels" by simp
next
  assume "row \<noteq> []"
  then show "(\<Sum>x\<leftarrow>log_softmax_row row. exp x) = 1"
    by (rule log_softmax_row_normalised)
next
  fix k assume "k < length row"
  then show "log_softmax_row row ! k = ln (exp (row ! k) / (\<Sum>y\<leftarrow>row. exp y))"
    by (rule log_softmax_row_ln)
next
  show "loss_of net g labels st =
     (case forward net st g (st inputs) of Inl err \<Rightarrow> Inl err | Inr lg \<Rightarrow> compute_loss lg labels)"
    by (rule loss_of_forward)
next
  assume "epoch lib net g labels e s = Inr s'"
  then show "\<exists>lg l. forward net (params s) g (params s inputs) = Inr lg \<and>
         logits s' = Some lg \<and> loss s' = Some l \<and> compute_loss lg labels = Inr l \<and>
         loss_of net g labels (params s) = Inr l \<and>
         optimizer_step (adam_rule lib) (optimizer s)
           (autograd lib (loss_of net g labels) (params s)) (params s) = (optimizer s', params s')"
    by (rule epoch_objective)
qed

theorem loss_on_labeled_nodes_witness:
  "compute_loss (replicate 34 [0, 0]) (replicate 34 0) = Inr (ln 2) \<and>
   compute_loss ((replicate 34 [0, 0])[1 := [5, 7]]) ((replicate 34 0)[1 := 1]) = Inr (ln 2) \<and>
   (\<Sum>x\<leftarrow>log_softmax_row [0, 0]. exp x) = 1 \<and>
   log_softmax_row [0, 0] ! 1 = - ln 2 \<and>
   loss_of (net_of example_SAGEConv) example_graph (replicate 34 0) (\<lambda>p. []) = Inr (ln 2) \<and>
   (\<exists>s'. epoch probe_lib (net_of example_SAGEConv) example_graph (replicate 34 0) 0
              (initial_state example_SAGEConv (\<lambda>p. []) (\<lambda>i j. 0) (\<lambda>i j. 0) example_graph) = Inr s' \<and>
          logits s' = Some (replicate 34 [0, 0]) \<and> loss s' = Some (ln 2) \<and>
          params s' inputs = [[ln 2]])"
proof -
  let ?lg = "replicate 34 [0, 0 :: real]" and ?lb = "replicate 34 (0 :: int)"
  let ?net = "net_of example_SAGEConv"
  let ?s0 = "initial_state example_SAGEConv (\<lambda>p. []) (\<lambda>i j. 0) (\<lambda>i j. 0) example_graph :: unit train_state"
  have h: "33 < length ?lg \<and> 33 < length ?lb \<and>
    0 \<le> ?lb ! 0 \<and> ?lb ! 0 < int (length (?lg ! 0)) \<and>
    0 \<le> ?lb ! 33 \<and> ?lb ! 33 < int (length (?lg ! 33))"
    by simp
  have h': "33 < length (?lg[1 := [5, 7]]) \<and> 33 < length (?lb[1 := 1]) \<and>
         ?lg[1 := [5, 7]] ! 0 = ?lg ! 0 \<and> ?lg[1 := [5, 7]] ! 33 = ?lg ! 33 \<and>
         ?lb[1 := 1] ! 0 = ?lb ! 0 \<and> ?lb[1 := 1] ! 33 = ?lb ! 33"
    by simp
  note first = loss_on_labeled_nodes [of ?lg ?lb, THEN conjunct1, THEN mp, OF h]
  have v: "compute_loss ?lg ?lb = Inr (ln 2)"
    using first [THEN conjunct1] by (simp add: ln_half)
  have "compute_loss (?lg[1 := [5, 7]]) (?lb[1 := 1]) = compute_loss ?lg ?lb"
    by (rule first [THEN conjunct2, THEN conjunct2, THEN spec, THEN spec, THEN mp, OF h'])
  with v have fr: "compute_loss (?lg[1 := [5, 7]]) (?lb[1 := 1]) = Inr (ln 2)" by simp
  have ne: "[0, 0 :: real] \<noteq> []" by simp
  note second = loss_on_labeled_nodes [where row = "[0, 0]", THEN conjunct2, THEN conjunct1, THEN mp, OF ne]
  have norm: "(\<Sum>x\<leftarrow>log_softmax_row [0, 0]. exp x) = 1"
    by (rule second [THEN conjunct1])
  have "log_softmax_row [0, 0] ! 1 = ln (exp ([0, 0] ! 1) / (\<Sum>y\<leftarrow>[0, 0]. exp y))"
    using second [THEN conjunct2, THEN spec, of 1] by simp
  then have entry: "log_softmax_row [0, 0] ! 1 = - ln 2"
    by (simp add: ln_half)
  have lo: "loss_of ?net example_graph ?lb st = Inr (ln 2)" for st
    using loss_on_labeled_nodes [where net = ?net and g = example_graph and labels = ?lb and st = st,
        THEN conjunct2, THEN conjunct2, THEN conjunct1]
    by (simp add: example_forward v)
  from epoch_succeeds [OF lo, of probe_lib 0 ?s0] obtain s' where
    s': "epoch probe_lib ?net example_graph ?lb 0 ?s0 = Inr s'" by blast
  from loss_on_labeled_nodes [where labels = ?lb and lib = probe_lib and net = ?net
      and g = example_graph and e = 0 and s = ?s0 and s' = s',
      THEN conjunct2, THEN conjunct2, THEN conjunct2, THEN mp, OF s']
  obtain lg l where fw: "forward ?net (params ?s0) example_graph (params ?s0 inputs) = Inr lg"
    and lgs: "logits s' = Some lg" and ls: "loss s' = Some l"
    and cl: "compute_loss lg ?lb = Inr l"
    and ob: "optimizer_step (adam_rule probe_lib) (optimizer ?s0)
           (autograd probe_lib (loss_of ?net example_graph ?lb) (params ?s0)) (params ?s0)
           = (optimizer s', params s')"
    by (elim exE conjE) (rule that)
  from fw have lg: "lg = ?lg" by (simp add: example_forward)
  with cl v have l: "l = ln 2" by simp
  have grads: "autograd probe_lib (loss_of ?net example_graph ?lb) (params ?s0) = (\<lambda>p. Some [[ln 2]])"
    by (simp add: probe_lib_def lo)
  have pg: "param_groups (optimizer ?s0) = parameters ?net @ [NodeEmbedWeight]"
    by (simp add: initial_state_def Adam_def node_embed_parameters_def)
  have "params s' inputs =
          (case (\<lambda>p. Some [[ln 2]]) inputs of
             None \<Rightarrow> params ?s0 inputs
           | Some gr \<Rightarrow> snd (adam_rule probe_lib (opt_state (optimizer ?s0) inputs) (params ?s0 inputs) gr))"
    using optimizer_step_last [OF pg inputs_not_in_parameters ob [unfolded grads]]
    unfolding inputs_def by simp
  then have upd: "params s' inputs = [[ln 2]]"
    by (simp add: probe_lib_def)
  from s' lgs ls lg l upd
  have "\<exists>s'. epoch probe_lib ?net example_graph ?lb 0 ?s0 = Inr s' \<and>
          logits s' = Some ?lg \<and> loss s' = Some (ln 2) \<and> params s' inputs = [[ln 2]]"
    by blast
  with v fr norm entry lo [of "\<lambda>p. []"] show ?thesis by (intro conjI)
qed


section \<open>The training loop\<close>

lemma for_loop_append:
  "for_loop body (xs @ ys) s =
     (case for_loop body xs s of Inl err \<Rightarrow> Inl err | Inr s' \<Rightarrow> for_loop body ys s')"
  by (induction xs arbitrary: s) (auto split: sum.splits)

lemma for_loop_snoc:
  "for_loop body (xs @ [e]) s =
     (case for_loop body xs s of Inl err \<Rightarrow> Inl err | Inr s' \<Rightarrow> body e s')"
  by (simp add: for_loop_append split: sum.splits)

text \<open>What a completed run of the loop over \<open>[a..<a + n]\<close> leaves behind.\<close>

lemma for_loop_epochs_Inr:
  assumes "for_loop (epoch lib net g labels) [a..<a + n] s = Inr s'"
  shows "length (all_logits s') = length (all_logits s) + n \<and>
         take (length (all_logits s)) (all_logits s') = all_logits s \<and>
         (0 < n \<longrightarrow> logits s' = Some (last (all_logits s'))) \<and>
         map fst (stdout s') = map fst (stdout s) @ filter (\<lambda>e. e mod 5 = 0) [a..<a + n] \<and>
         (\<forall>k < n. \<exists>sk. for_loop (epoch lib net g labels) [a..<a + k] s = Inr sk \<and>
            forward net (params sk) g (params sk inputs) =
              Inr (all_logits s' ! (length (all_logits s) + k)))"
  using assms
proof (induction n arbitrary: s')
  case 0
  then show ?case by simp
next
  case (Suc n)
  let ?body = "epoch lib net g labels"
  have split: "[a..<a + Suc n] = [a..<a + n] @ [a + n]" by simp
  from Suc.prems obtain sn where sn: "for_loop ?body [a..<a + n] s = Inr sn"
    and last: "?body (a + n) sn = Inr s'"
    unfolding split for_loop_snoc by (auto split: sum.splits)
  note IH = Suc.IH [OF sn]
  from epoch_Inr [OF last] obtain lg l where
    fw: "forward net (params sn) g (params sn inputs) = Inr lg"
    and al: "all_logits s' = all_logits sn @ [lg]" and lgs: "logits s' = Some lg"
    and out: "stdout s' = (if (a + n) mod 5 = 0 then stdout sn @ [(a + n, l)] else stdout sn)"
    by blast
  have len: "length (all_logits s') = length (all_logits s) + Suc n"
    using IH al by simp
  have tk: "take (length (all_logits s)) (all_logits s') = all_logits s"
    using IH al by simp
  have lst: "logits s' = Some (last (all_logits s'))"
    using al lgs by simp
  have "filter (\<lambda>e. e mod 5 = 0) [a..<a + Suc n] =
          filter (\<lambda>e. e mod 5 = 0) [a..<a + n] @ (if (a + n) mod 5 = 0 then [a + n] else [])"
    by simp
  then have so: "map fst (stdout s') = map fst (stdout s) @ filter (\<lambda>e. e mod 5 = 0) [a..<a + Suc n]"
    using IH out by simp
  have each: "\<exists>sk. for_loop ?body [a..<a + k] s = Inr sk \<and>
            forward net (params sk) g (params sk inputs) =
              Inr (all_logits s' ! (length (all_logits s) + k))" if k: "k < Suc n" for k
  proof (cases "k < n")
    case True
    with IH obtain sk where "for_loop ?body [a..<a + k] s = Inr sk"
      "forward net (params sk) g (params sk inputs) = Inr (all_logits sn ! (length (all_logits s) + k))"
      by blast
    moreover have "all_logits s' ! (length (all_logits s) + k) = all_logits sn ! (length (all_logits s) + k)"
      using IH True al by (simp add: nth_append)
    ultimately show ?thesis by auto
  next
    case False
    with k have kn: "k = n" by simp
    have "all_logits s' ! (length (all_logits s) + n) = lg"
      using IH al by (simp add: nth_append)
    with sn fw kn show ?thesis by auto
  qed
  from len tk lst so each show ?case by blast
qed

text \<open>The forward pass and the loss never raise when the layers return one row of two
  logits per node, for at least 34 nodes, and the labels are 0 or 1.\<close>

lemma loss_of_total:
  assumes fw: "\<forall>st. \<exists>lg. forward net st g (st inputs) = Inr lg \<and> 33 < length lg \<and>
                  (\<forall>row \<in> set lg. length row = 2)"
    and len: "33 < length labels" and rng: "\<forall>v \<in> set labels. v = 0 \<or> v = 1"
  shows "\<forall>st. \<exists>l. loss_of net g labels st = Inr l"
proof
  fix st
  from fw obtain lg where lg: "forward net st g (st inputs) = Inr lg" "33 < length lg"
    "\<forall>row \<in> set lg. length row = 2"
    by blast
  have "0 < length lg" "0 < length labels" using lg(2) len by arith+
  then have "length (lg ! 0) = 2" "length (lg ! 33) = 2"
    and "labels ! 0 = 0 \<or> labels ! 0 = 1" "labels ! 33 = 0 \<or> labels ! 33 = 1"
    using lg(2,3) len rng by (simp_all add: nth_mem)
  then have "0 \<le> labels ! 0" "labels ! 0 < int (length (lg ! 0))"
    and "0 \<le> labels ! 33" "labels ! 33 < int (length (lg ! 33))"
    by auto
  from compute_loss_value [OF lg(2) len this]
  have "\<exists>l. compute_loss lg labels = Inr l" by blast
  then show "\<exists>l. loss_of net g labels st = Inr l"
    by (simp add: loss_of_def lg(1))
qed

lemma for_loop_epochs_total:
  assumes "\<forall>st. \<exists>l. loss_of net g labels st = Inr l"
  shows "\<exists>s'. for_loop (epoch lib net g labels) es s = Inr s'"
proof (induction es arbitrary: s)
  case Nil
  then show ?case by simp
next
  case (Cons e es)
  from assms obtain l where "loss_of net g labels (params s) = Inr l" by blast
  from epoch_succeeds [OF this] obtain s1 where "epoch lib net g labels e s = Inr s1" by blast
  with Cons.IH [of s1] show ?case by simp
qed

lemma example_train:
  fixes s :: "unit train_state"
  shows "\<exists>s'. train example_lib (net_of example_SAGEConv) example_graph (replicate 34 0) s = Inr s'"
  unfolding train_def using example_loss_of by (intro for_loop_epochs_total) blast




section \<open>The accuracy\<close>

lemma torch_argmax_rows:
  assumes "\<forall>row \<in> set lg. row \<noteq> []"
  shows "\<exists>pred. torch_argmax lg = Inr pred \<and> length pred = length lg \<and>
           (\<forall>i < length lg. argmax (lg ! i) = Some (pred ! i))"
  using assms
proof (induction lg)
  case Nil
  then show ?case by simp
next
  case (Cons row rows)
  then obtain ks where ks: "torch_argmax rows = Inr ks" "length ks = length rows"
    "\<forall>i < length rows. argmax (rows ! i) = Some (ks ! i)"
    by auto
  from Cons.prems obtain k where k: "argmax row = Some k"
    by (auto simp: argmax_def)
  have "\<forall>i < length (row # rows). argmax ((row # rows) ! i) = Some ((k # ks) ! i)"
    using k ks(3) by (auto simp: nth_Cons split: nat.splits)
  with k ks show ?case by auto
qed

lemma tensor_eq_same_length:
  "length a = length b \<Longrightarrow> tensor_eq a b = Inr (map (\<lambda>(x, y). x = y) (zip a b))"
  by (simp add: tensor_eq_def)

lemma hits_card:
  assumes "length a = length b"
  shows "length (filter (\<lambda>b. b) (map (\<lambda>(x, y). x = y) (zip a b))) =
           card {i. i < length b \<and> a ! i = b ! i}"
proof -
  let ?hits = "map (\<lambda>(x, y). x = y) (zip a b)"
  have "length (filter (\<lambda>b. b) ?hits) = card {i. i < length ?hits \<and> ?hits ! i}"
    by (rule length_filter_conv_card)
  also have "{i. i < length ?hits \<and> ?hits ! i} = {i. i < length b \<and> a ! i = b ! i}"
    using assms by auto
  finally show ?thesis .
qed

lemma accuracy_value:
  assumes len: "length lg = length labels" and ne: "lg \<noteq> []"
    and rows: "\<forall>row \<in> set lg. row \<noteq> []"
  shows "accuracy lg labels =
           Inr (real (card {i. i < length labels \<and> map_option int (argmax (lg ! i)) = Some (labels ! i)})
                / real (length labels))"
proof -
  from torch_argmax_rows [OF rows] obtain pred where
    pred: "torch_argmax lg = Inr pred" "length pred = length lg"
    "\<forall>i < length lg. argmax (lg ! i) = Some (pred ! i)"
    by blast
  have l2: "length (map int pred) = length labels" using pred(2) len by simp
  have "{i. i < length labels \<and> map int pred ! i = labels ! i} =
          {i. i < length labels \<and> map_option int (argmax (lg ! i)) = Some (labels ! i)}"
    using pred len by auto
  with hits_card [OF l2]
  have "length (filter (\<lambda>b. b) (map (\<lambda>(x, y). x = y) (zip (map int pred) labels))) =
          card {i. i < length labels \<and> map_option int (argmax (lg ! i)) = Some (labels ! i)}"
    by simp
  moreover have "length pred \<noteq> 0" using pred(2) ne by simp
  ultimately show ?thesis
    using pred(1,2) len tensor_eq_same_length [OF l2]
    by (simp add: accuracy_def del: map_map)
qed

lemma ratio_bounds:
  fixes A :: "nat set"
  assumes "A \<subseteq> {..<n}" "0 < n"
  shows "0 \<le> real (card A) / real n \<and> real (card A) / real n \<le> 1"
proof -
  have "card A \<le> card {..<n}" by (rule card_mono) (use assms in auto)
  then have "real (card A) \<le> real n" by simp
  with assms(2) show ?thesis by simp
qed

lemma example_accuracy: "accuracy (replicate 34 [0, 0]) (replicate 34 0) = Inr 1"
proof -
  let ?lg = "replicate 34 [0, 0 :: real]" and ?lb = "replicate 34 (0 :: int)"
  have am: "argmax [0, 0 :: real] = Some 0" by (simp add: argmax_def)
  have "{i. i < length ?lb \<and> map_option int (argmax (?lg ! i)) = Some (?lb ! i)} = {..<34}"
    using am by auto
  then have "card {i. i < length ?lb \<and> map_option int (argmax (?lg ! i)) = Some (?lb ! i)} = 34"
    by simp
  moreover have "accuracy ?lg ?lb =
     Inr (real (card {i. i < length ?lb \<and> map_option int (argmax (?lg ! i)) = Some (?lb ! i)})
          / real (length ?lb))"
    by (rule accuracy_value) simp_all
  ultimately show ?thesis by simp
qed

text \<open>\<^verbatim>\<open>argmax\<close> returns the position of the first maximal entry of a non-empty row.\<close>

lemma argmax_first_max:
  fixes row :: "('a::linorder) list"
  assumes "row \<noteq> []"
  shows "\<exists>k. argmax row = Some k \<and> k < length row \<and> row ! k = Max (set row) \<and>
           (\<forall>j < k. row ! j < row ! k)"
proof -
  let ?P = "\<lambda>x. x \<noteq> Max (set row)"
  let ?k = "length (takeWhile ?P row)"
  have mem: "Max (set row) \<in> set row" using assms by (intro Max_in) simp_all
  have "takeWhile ?P row \<noteq> row"
    using mem by (auto simp: takeWhile_eq_all_conv)
  moreover have "takeWhile ?P row = take ?k row" by (rule takeWhile_eq_take)
  ultimately have lt: "?k < length row"
    by (metis linorder_not_less take_all)
  from nth_length_takeWhile [OF lt] have mx: "row ! ?k = Max (set row)" by simp
  have "row ! j < row ! ?k" if "j < ?k" for j
  proof -
    from that have "takeWhile ?P row ! j = row ! j" by (rule takeWhile_nth)
    moreover from that have "takeWhile ?P row ! j \<in> set (takeWhile ?P row)" by (rule nth_mem)
    ultimately have inr: "row ! j \<in> set row" and ne: "row ! j \<noteq> Max (set row)"
      by (auto dest: set_takeWhileD)
    from inr have "row ! j \<le> Max (set row)" by simp
    from this ne have "row ! j < Max (set row)" by (rule le_neq_trans)
    with mx show ?thesis by simp
  qed
  with lt mx assms show ?thesis by (simp add: argmax_def)
qed

lemma getitem_labeled_nodes_Inr:
  assumes "getitem t labeled_nodes = Inr r"
  shows "33 < length t"
proof (rule ccontr)
  assume "\<not> 33 < length t"
  from getitem_labeled_nodes_short [OF this] assms show False by auto
qed

lemma forward_Inr_conv2:
  assumes "forward net st g x = Inr lg"
  shows "\<exists>w h. conv_call (conv2 net) g w h = Inr lg"
  using assms by (auto simp: forward_def Let_def split: sum.splits)

text \<open>The hits are counted by broadcasting when the sizes differ, so the ratio can exceed 1.\<close>

lemma accuracy_broadcast: "accuracy [[0, 1]] [1, 1, 1] = Inr 3"
  by (simp add: accuracy_def argmax_def tensor_eq_def)

text \<open>
  What a completed run of the second notebook went through: the labels are the 'club'
  feature, the state is the one the training loop returned from the initial state, and
  the logits under \<^verbatim>\<open>argmax\<close> are the output of the forward pass of epoch 99, the last
  of the 100 entries of \<open>all_logits\<close>. The labels have at least 34 entries, since
  \<^verbatim>\<open>labels[labeled_nodes]\<close> was printed.
\<close>

lemma node_classification_Inr:
  assumes nc: "node_classification lib SAGEConv init draw0 draw1 g = Inr (s, acc')"
  shows "\<exists>labels' lg' s99. ndata g ''club'' = Some (LongTensor1 labels') \<and>
         train lib (net_of SAGEConv) g labels' (initial_state SAGEConv init draw0 draw1 g) = Inr s \<and>
         for_loop (epoch lib (net_of SAGEConv) g labels') [0..<99]
           (initial_state SAGEConv init draw0 draw1 g) = Inr s99 \<and>
         forward (net_of SAGEConv) (params s99) g (params s99 inputs) = Inr lg' \<and>
         length (all_logits s) = 100 \<and> lg' = all_logits s ! 99 \<and> logits s = Some lg' \<and>
         accuracy lg' labels' = Inr acc' \<and> 33 < length labels'"
proof -
  let ?s0 = "initial_state SAGEConv init draw0 draw1 g :: 'a train_state"
  from nc obtain labels' where lb: "ndata g ''club'' = Some (LongTensor1 labels')"
    by (auto simp: node_classification_def split: option.splits tensor.splits)
  from nc lb obtain printed where "getitem labels' labeled_nodes = Inr printed"
    by (auto simp: node_classification_def split: sum.splits)
  then have len: "33 < length labels'" by (rule getitem_labeled_nodes_Inr)
  from nc lb have tr: "train lib (net_of SAGEConv) g labels' ?s0 = Inr s"
    by (auto simp: node_classification_def split: sum.splits option.splits)
  from nc lb tr obtain lg' where lg': "logits s = Some lg'" "accuracy lg' labels' = Inr acc'"
    by (auto simp: node_classification_def split: sum.splits option.splits)
  from tr have "for_loop (epoch lib (net_of SAGEConv) g labels') [0..<0 + 100] ?s0 = Inr s"
    by (simp add: train_def)
  note run = for_loop_epochs_Inr [OF this]
  have a0: "all_logits ?s0 = []" by (simp add: initial_state_def)
  from run a0 have n: "length (all_logits s) = 100" and lst: "logits s = Some (last (all_logits s))"
    by simp_all
  from n have "last (all_logits s) = all_logits s ! 99"
    by (subst last_conv_nth) auto
  with lst lg'(1) have eq: "lg' = all_logits s ! 99" by simp
  from run [THEN conjunct2, THEN conjunct2, THEN conjunct2, THEN conjunct2, THEN spec, of 99] a0
  obtain s99 where s99: "for_loop (epoch lib (net_of SAGEConv) g labels') [0..<99] ?s0 = Inr s99"
    "forward (net_of SAGEConv) (params s99) g (params s99 inputs) = Inr (all_logits s ! 99)"
    by auto
  from lb tr s99 n eq lg' len show ?thesis by blast
qed

lemma accuracy_ratio_bounds:
  assumes acc: "accuracy lg labels = Inr a"
    and len: "length lg = length labels" and ne: "labels \<noteq> []"
    and rows: "\<forall>row \<in> set lg. row \<noteq> []"
  shows "a = real (card {i. i < length labels \<and> map_option int (argmax (lg ! i)) = Some (labels ! i)})
               / real (length labels) \<and> 0 \<le> a \<and> a \<le> 1"
proof -
  from len ne have "lg \<noteq> []" by auto
  from accuracy_value [OF len this rows] acc
  have v: "a = real (card {i. i < length labels \<and> map_option int (argmax (lg ! i)) = Some (labels ! i)})
               / real (length labels)"
    by simp
  from ne have "0 < length labels" by simp
  from ratio_bounds [OF _ this, of "{i. i < length labels \<and> map_option int (argmax (lg ! i)) = Some (labels ! i)}"]
  show ?thesis unfolding v by auto
qed

text \<open>The run on the evenly split graph, with layers that return zeros.\<close>

lemma split_forward:
  "forward (net_of example_SAGEConv) st split_graph x = Inr (replicate 34 [0, 0])"
  by (simp add: forward_def net_of_def GraphSAGE_init_def example_SAGEConv_def split_graph_def
      numeral_2_eq_2)

lemma split_train:
  fixes s :: "unit train_state"
  shows "\<exists>s'. train example_lib (net_of example_SAGEConv) split_graph
                 (replicate 17 0 @ replicate 17 1) s = Inr s'"
proof -
  have "\<forall>st. \<exists>lg. forward (net_of example_SAGEConv) st split_graph (st inputs) = Inr lg \<and>
          33 < length lg \<and> (\<forall>row \<in> set lg. length row = 2)"
    by (simp add: split_forward)
  then have "\<forall>st. \<exists>l. loss_of (net_of example_SAGEConv) split_graph
                        (replicate 17 0 @ replicate 17 1) st = Inr l"
    by (rule loss_of_total) auto
  then show ?thesis
    unfolding train_def by (rule for_loop_epochs_total)
qed

lemma split_hits:
  "{i. i < 34 \<and> map_option int (argmax (replicate 34 [0, 0 :: real] ! i)) =
                  Some ((replicate 17 0 @ replicate 17 1) ! i)} = {..<17}"
proof -
  have am: "argmax [0, 0 :: real] = Some 0" by (simp add: argmax_def)
  show ?thesis using am by (auto simp: nth_append)
qed

text \<open>
  C4. With one non-empty row of logits per label and at least one node, the accuracy is
  the number of nodes whose argmax over the logits equals their label, divided by the
  number of nodes; it lies between 0 and 1. The argmax of a row is the position of its
  first maximal entry. When the notebook completes, the printed accuracy is this function
  of the 'club' labels and of the logits that the forward pass returned in epoch 99 of the
  training run from the initial state, which are \<open>all_logits[99]\<close> and the last value of
  \<open>logits\<close>. When the second layer returns one row of two logits per node, as the
  library's layer does, and the 'club' feature has one entry per node, as the graph
  library keeps it, the printed accuracy is the number of nodes whose argmax over the
  last epoch's two logits equals their club label, divided by the number of nodes, which
  is at least 34; it lies between 0 and 1.
\<close>

theorem accuracy_is_hit_ratio:
  "(length lg = length labels \<and> lg \<noteq> [] \<and> (\<forall>row \<in> set lg. row \<noteq> []) \<longrightarrow>
      accuracy lg labels =
        Inr (real (card {i. i < length labels \<and> map_option int (argmax (lg ! i)) = Some (labels ! i)})
             / real (length labels)) \<and>
      (\<exists>acc. accuracy lg labels = Inr acc \<and> 0 \<le> acc \<and> acc \<le> 1)) \<and>
   ((row :: real list) \<noteq> [] \<longrightarrow>
      (\<exists>k. argmax row = Some k \<and> k < length row \<and> row ! k = Max (set row) \<and>
         (\<forall>j < k. row ! j < row ! k))) \<and>
   (node_classification lib SAGEConv init draw0 draw1 g = Inr (s, acc') \<longrightarrow>
      (\<exists>labels' lg' s99. ndata g ''club'' = Some (LongTensor1 labels') \<and>
         train lib (net_of SAGEConv) g labels' (initial_state SAGEConv init draw0 draw1 g) = Inr s \<and>
         for_loop (epoch lib (net_of SAGEConv) g labels') [0..<99]
           (initial_state SAGEConv init draw0 draw1 g) = Inr s99 \<and>
         forward (net_of SAGEConv) (params s99) g (params s99 inputs) = Inr lg' \<and>
         length (all_logits s) = 100 \<and> lg' = all_logits s ! 99 \<and> logits s = Some lg' \<and>
         accuracy lg' labels' = Inr acc' \<and> 33 < length labels' \<and>
         (length lg' = length labels' \<and> (\<forall>row \<in> set lg'. row \<noteq> []) \<longrightarrow>
            acc' = real (card {i. i < length labels' \<and>
                                 map_option int (argmax (lg' ! i)) = Some (labels' ! i)})
                     / real (length labels') \<and>
            0 \<le> acc' \<and> acc' \<le> 1))) \<and>
   (node_classification lib SAGEConv init draw0 draw1 g = Inr (s, acc') \<and>
    (\<forall>w h out. conv_call (conv2 (net_of SAGEConv)) g w h = Inr out \<longrightarrow>
       length out = number_of_nodes g \<and> (\<forall>row \<in> set out. length row = 2)) \<and>
    (\<forall>t. ndata g ''club'' = Some t \<longrightarrow> shape0 t = number_of_nodes g) \<longrightarrow>
      (\<exists>labels'. ndata g ''club'' = Some (LongTensor1 labels') \<and>
         length labels' = number_of_nodes g \<and> 33 < number_of_nodes g \<and>
         length (all_logits s) = 100 \<and>
         length (all_logits s ! 99) = number_of_nodes g \<and>
         (\<forall>row \<in> set (all_logits s ! 99). length row = 2) \<and>
         acc' = real (card {i. i < number_of_nodes g \<and>
                              map_option int (argmax (all_logits s ! 99 ! i)) = Some (labels' ! i)})
                  / real (number_of_nodes g) \<and>
         0 \<le> acc' \<and> acc' \<le> 1))"
proof (intro conjI impI)
  assume h: "length lg = length labels \<and> lg \<noteq> [] \<and> (\<forall>row \<in> set lg. row \<noteq> [])"
  then show v: "accuracy lg labels =
        Inr (real (card {i. i < length labels \<and> map_option int (argmax (lg ! i)) = Some (labels ! i)})
             / real (length labels))"
    by (intro accuracy_value) simp_all
  from h have "0 < length labels" by auto
  from ratio_bounds [OF _ this, of "{i. i < length labels \<and> map_option int (argmax (lg ! i)) = Some (labels ! i)}"]
  show "\<exists>acc. accuracy lg labels = Inr acc \<and> 0 \<le> acc \<and> acc \<le> 1"
    unfolding v by auto
next
  assume "row \<noteq> []"
  then show "\<exists>k. argmax row = Some k \<and> k < length row \<and> row ! k = Max (set row) \<and>
         (\<forall>j < k. row ! j < row ! k)"
    by (rule argmax_first_max)
next
  assume nc: "node_classification lib SAGEConv init draw0 draw1 g = Inr (s, acc')"
  from node_classification_Inr [OF nc] obtain labels' lg' s99 where
    f: "ndata g ''club'' = Some (LongTensor1 labels')"
      "train lib (net_of SAGEConv) g labels' (initial_state SAGEConv init draw0 draw1 g) = Inr s"
      "for_loop (epoch lib (net_of SAGEConv) g labels') [0..<99]
           (initial_state SAGEConv init draw0 draw1 g) = Inr s99"
      "forward (net_of SAGEConv) (params s99) g (params s99 inputs) = Inr lg'"
      "length (all_logits s) = 100" "lg' = all_logits s ! 99" "logits s = Some lg'"
    and acc: "accuracy lg' labels' = Inr acc'" and len: "33 < length labels'"
    by (elim exE conjE) (rule that)
  have "length lg' = length labels' \<and> (\<forall>row \<in> set lg'. row \<noteq> []) \<longrightarrow>
            acc' = real (card {i. i < length labels' \<and>
                                 map_option int (argmax (lg' ! i)) = Some (labels' ! i)})
                     / real (length labels') \<and>
            0 \<le> acc' \<and> acc' \<le> 1"
  proof
    assume "length lg' = length labels' \<and> (\<forall>row \<in> set lg'. row \<noteq> [])"
    moreover from len have "labels' \<noteq> []" by auto
    ultimately show "acc' = real (card {i. i < length labels' \<and>
                                 map_option int (argmax (lg' ! i)) = Some (labels' ! i)})
                     / real (length labels') \<and>
            0 \<le> acc' \<and> acc' \<le> 1"
      using acc by (intro accuracy_ratio_bounds) simp_all
  qed
  with f acc len show "\<exists>labels' lg' s99. ndata g ''club'' = Some (LongTensor1 labels') \<and>
         train lib (net_of SAGEConv) g labels' (initial_state SAGEConv init draw0 draw1 g) = Inr s \<and>
         for_loop (epoch lib (net_of SAGEConv) g labels') [0..<99]
           (initial_state SAGEConv init draw0 draw1 g) = Inr s99 \<and>
         forward (net_of SAGEConv) (params s99) g (params s99 inputs) = Inr lg' \<and>
         length (all_logits s) = 100 \<and> lg' = all_logits s ! 99 \<and> logits s = Some lg' \<and>
         accuracy lg' labels' = Inr acc' \<and> 33 < length labels' \<and>
         (length lg' = length labels' \<and> (\<forall>row \<in> set lg'. row \<noteq> []) \<longrightarrow>
            acc' = real (card {i. i < length labels' \<and>
                                 map_option int (argmax (lg' ! i)) = Some (labels' ! i)})
                     / real (length labels') \<and>
            0 \<le> acc' \<and> acc' \<le> 1)"
    by (intro exI [of _ labels'] exI [of _ lg'] exI [of _ s99] conjI)
next
  assume a: "node_classification lib SAGEConv init draw0 draw1 g = Inr (s, acc') \<and>
    (\<forall>w h out. conv_call (conv2 (net_of SAGEConv)) g w h = Inr out \<longrightarrow>
       length out = number_of_nodes g \<and> (\<forall>row \<in> set out. length row = 2)) \<and>
    (\<forall>t. ndata g ''club'' = Some t \<longrightarrow> shape0 t = number_of_nodes g)"
  then have nc: "node_classification lib SAGEConv init draw0 draw1 g = Inr (s, acc')"
    and conv: "\<And>w h out. conv_call (conv2 (net_of SAGEConv)) g w h = Inr out \<Longrightarrow>
       length out = number_of_nodes g \<and> (\<forall>row \<in> set out. length row = 2)"
    and club: "\<And>t. ndata g ''club'' = Some t \<Longrightarrow> shape0 t = number_of_nodes g"
    by blast+
  from node_classification_Inr [OF nc] obtain labels' lg' s99 where
    lb: "ndata g ''club'' = Some (LongTensor1 labels')"
    and "train lib (net_of SAGEConv) g labels' (initial_state SAGEConv init draw0 draw1 g) = Inr s"
    and "for_loop (epoch lib (net_of SAGEConv) g labels') [0..<99]
           (initial_state SAGEConv init draw0 draw1 g) = Inr s99"
    and fw': "forward (net_of SAGEConv) (params s99) g (params s99 inputs) = Inr lg'"
    and n: "length (all_logits s) = 100" and eq: "lg' = all_logits s ! 99"
    and "logits s = Some lg'"
    and acc': "accuracy lg' labels' = Inr acc'" and len: "33 < length labels'"
    by (elim exE conjE) (rule that)
  from fw' eq have fw: "forward (net_of SAGEConv) (params s99) g (params s99 inputs) =
      Inr (all_logits s ! 99)"
    by simp
  from acc' eq have acc: "accuracy (all_logits s ! 99) labels' = Inr acc'" by simp
  from club [OF lb] have ll: "length labels' = number_of_nodes g" by simp
  from forward_Inr_conv2 [OF fw] obtain w h where
    "conv_call (conv2 (net_of SAGEConv)) g w h = Inr (all_logits s ! 99)" by blast
  from conv [OF this] have sh: "length (all_logits s ! 99) = number_of_nodes g"
    "\<forall>row \<in> set (all_logits s ! 99). length row = 2"
    by simp_all
  from sh(2) have rows: "\<forall>row \<in> set (all_logits s ! 99). row \<noteq> []" by auto
  from len have ne: "labels' \<noteq> []" by auto
  from accuracy_ratio_bounds [OF acc _ ne rows] sh(1) ll
  have r: "acc' = real (card {i. i < number_of_nodes g \<and>
                              map_option int (argmax (all_logits s ! 99 ! i)) = Some (labels' ! i)})
                  / real (number_of_nodes g) \<and>
         0 \<le> acc' \<and> acc' \<le> 1"
    by simp
  from len ll have nn: "33 < number_of_nodes g" by simp
  show "\<exists>labels'. ndata g ''club'' = Some (LongTensor1 labels') \<and>
         length labels' = number_of_nodes g \<and> 33 < number_of_nodes g \<and>
         length (all_logits s) = 100 \<and>
         length (all_logits s ! 99) = number_of_nodes g \<and>
         (\<forall>row \<in> set (all_logits s ! 99). length row = 2) \<and>
         acc' = real (card {i. i < number_of_nodes g \<and>
                              map_option int (argmax (all_logits s ! 99 ! i)) = Some (labels' ! i)})
                  / real (number_of_nodes g) \<and>
         0 \<le> acc' \<and> acc' \<le> 1"
    using lb ll nn n sh r [THEN conjunct1] r [THEN conjunct2, THEN conjunct1]
      r [THEN conjunct2, THEN conjunct2]
    by (intro exI [of _ labels'] conjI)
qed

theorem accuracy_is_hit_ratio_witness:
  "accuracy [[1, 2], [3, 0], [0, 0]] [1, 1, 0] = Inr (2 / 3) \<and>
   real (card {i. i < length [1, 1, 0 :: int] \<and>
                 map_option int (argmax ([[1, 2], [3, 0], [0, 0 :: real]] ! i)) = Some ([1, 1, 0] ! i)})
     / real (length [1, 1, 0 :: int]) = 2 / 3 \<and>
   (\<exists>acc. accuracy [[1, 2], [3, 0], [0, 0]] [1, 1, 0] = Inr acc \<and> 0 \<le> acc \<and> acc \<le> 1) \<and>
   argmax [3, 7, 7 :: real] = Some 1 \<and>
   (\<exists>s s99. node_classification example_lib example_SAGEConv (\<lambda>p. []) (\<lambda>i j. 0) (\<lambda>i j. 0) split_graph
               = Inr (s, 1 / 2) \<and>
        train example_lib (net_of example_SAGEConv) split_graph (replicate 17 0 @ replicate 17 1)
          (initial_state example_SAGEConv (\<lambda>p. []) (\<lambda>i j. 0) (\<lambda>i j. 0) split_graph) = Inr s \<and>
        for_loop (epoch example_lib (net_of example_SAGEConv) split_graph (replicate 17 0 @ replicate 17 1))
          [0..<99] (initial_state example_SAGEConv (\<lambda>p. []) (\<lambda>i j. 0) (\<lambda>i j. 0) split_graph) = Inr s99 \<and>
        forward (net_of example_SAGEConv) (params s99) split_graph (params s99 inputs) =
          Inr (all_logits s ! 99) \<and>
        length (all_logits s) = 100 \<and> logits s = Some (all_logits s ! 99) \<and>
        all_logits s ! 99 = replicate 34 [0, 0] \<and>
        number_of_nodes split_graph = 34 \<and>
        card {i. i < 34 \<and> map_option int (argmax (replicate 34 [0, 0 :: real] ! i)) =
                            Some ((replicate 17 0 @ replicate 17 1) ! i)} = 17)"
proof -
  let ?lg = "[[1, 2], [3, 0], [0, 0 :: real]]" and ?lb = "[1, 1, 0 :: int]"
  have h: "length ?lg = length ?lb \<and> ?lg \<noteq> [] \<and> (\<forall>row \<in> set ?lg. row \<noteq> [])" by simp
  have a: "argmax [1, 2 :: real] = Some 1" "argmax [3, 0 :: real] = Some 0" "argmax [0, 0 :: real] = Some 0"
    by (simp_all add: argmax_def)
  have ta: "torch_argmax ?lg = Inr [1, 0, 0]"
    by (simp add: a)
  have te: "tensor_eq [1, 0, 0] ?lb = Inr [True, False, True]"
    by (simp add: tensor_eq_def)
  have v: "accuracy ?lg ?lb = Inr (2 / 3)"
    unfolding accuracy_def ta by (simp add: te)
  note first = accuracy_is_hit_ratio [of ?lg ?lb, THEN conjunct1, THEN mp, OF h]
  have "accuracy ?lg ?lb =
        Inr (real (card {i. i < length ?lb \<and> map_option int (argmax (?lg ! i)) = Some (?lb ! i)})
             / real (length ?lb))"
    by (rule first [THEN conjunct1])
  then have r: "real (card {i. i < length ?lb \<and> map_option int (argmax (?lg ! i)) = Some (?lb ! i)})
             / real (length ?lb) = 2 / 3"
    unfolding v by (rule Inr_inject [symmetric])
  have bnd: "\<exists>acc. accuracy ?lg ?lb = Inr acc \<and> 0 \<le> acc \<and> acc \<le> 1"
    by (rule first [THEN conjunct2])
  have ne: "[3, 7, 7 :: real] \<noteq> []" by simp
  from accuracy_is_hit_ratio [where row = "[3, 7, 7]", THEN conjunct2, THEN conjunct1, THEN mp, OF ne]
  obtain k where "argmax [3, 7, 7 :: real] = Some k" "k < length [3, 7, 7 :: real]"
    "[3, 7, 7 :: real] ! k = Max (set [3, 7, 7])"
    by (elim exE conjE) (rule that)
  then have am: "argmax [3, 7, 7 :: real] = Some 1"
    by (simp add: argmax_def)
  let ?half = "replicate 17 (0 :: int) @ replicate 17 1"
  let ?net = "net_of example_SAGEConv"
  let ?s0 = "initial_state example_SAGEConv (\<lambda>p. []) (\<lambda>i j. 0) (\<lambda>i j. 0) split_graph :: unit train_state"
  from split_train [of ?s0] obtain s where
    tr: "train example_lib ?net split_graph ?half ?s0 = Inr s" by blast
  then have "for_loop (epoch example_lib ?net split_graph ?half) [0..<0 + 100] ?s0 = Inr s"
    by (simp add: train_def)
  note run100 = for_loop_epochs_Inr [OF this]
  have a0: "all_logits ?s0 = []" by (simp add: initial_state_def)
  from run100 a0 have n: "length (all_logits s) = 100" and lst: "logits s = Some (last (all_logits s))"
    by simp_all
  from n have "last (all_logits s) = all_logits s ! 99"
    by (subst last_conv_nth) auto
  with lst have lgs: "logits s = Some (all_logits s ! 99)" by simp
  from run100 [THEN conjunct2, THEN conjunct2, THEN conjunct2, THEN conjunct2, THEN spec, of 99] a0
  obtain sk :: "unit train_state" where
    "forward ?net (params sk) split_graph (params sk inputs) = Inr (all_logits s ! 99)"
    by auto
  then have l99: "all_logits s ! 99 = replicate 34 [0, 0]"
    by (simp add: split_forward)
  have club: "ndata split_graph ''club'' = Some (LongTensor1 ?half)"
    by (simp add: split_graph_def)
  have nodes: "number_of_nodes split_graph = 34"
    by (simp add: number_of_nodes_def split_graph_def)
  have pr: "getitem ?half labeled_nodes = Inr [?half ! 0, ?half ! 33]"
    by (rule getitem_labeled_nodes) simp
  have "accuracy (replicate 34 [0, 0]) ?half =
          Inr (real (card {i. i < length ?half \<and>
                             map_option int (argmax (replicate 34 [0, 0 :: real] ! i)) = Some (?half ! i)})
               / real (length ?half))"
    by (rule accuracy_value) simp_all
  then have "\<exists>acc. accuracy (replicate 34 [0, 0]) ?half = Inr acc" by (rule exI)
  then obtain acc where "accuracy (replicate 34 [0, 0]) ?half = Inr acc" by blast
  with lgs l99 have nc: "node_classification example_lib example_SAGEConv (\<lambda>p. []) (\<lambda>i j. 0) (\<lambda>i j. 0)
                 split_graph = Inr (s, acc)"
    by (simp add: node_classification_def club pr tr)
  have facts: "node_classification example_lib example_SAGEConv (\<lambda>p. []) (\<lambda>i j. 0) (\<lambda>i j. 0)
                 split_graph = Inr (s, acc) \<and>
    (\<forall>w h out. conv_call (conv2 (net_of example_SAGEConv)) split_graph w h = Inr out \<longrightarrow>
       length out = number_of_nodes split_graph \<and> (\<forall>row \<in> set out. length row = 2)) \<and>
    (\<forall>t. ndata split_graph ''club'' = Some t \<longrightarrow> shape0 t = number_of_nodes split_graph)"
    using nc
    by (auto simp: net_of_def GraphSAGE_init_def example_SAGEConv_def split_graph_def
        number_of_nodes_def)
  from accuracy_is_hit_ratio [where lib = example_lib and SAGEConv = example_SAGEConv
      and init = "\<lambda>p. []" and ?draw0.0 = "\<lambda>i j. 0" and ?draw1.0 = "\<lambda>i j. 0" and g = split_graph
      and s = s and acc' = acc, THEN conjunct2, THEN conjunct2, THEN conjunct2, THEN mp, OF facts]
  obtain labels' where "ndata split_graph ''club'' = Some (LongTensor1 labels')"
    "acc = real (card {i. i < number_of_nodes split_graph \<and>
                         map_option int (argmax (all_logits s ! 99 ! i)) = Some (labels' ! i)})
             / real (number_of_nodes split_graph)"
    by (elim exE conjE) (rule that)
  with club have "acc = real (card {i. i < 34 \<and>
                         map_option int (argmax (replicate 34 [0, 0 :: real] ! i)) = Some (?half ! i)}) / 34"
    by (simp add: nodes l99)
  then have half: "acc = 1 / 2"
    unfolding split_hits by simp
  from accuracy_is_hit_ratio [where lib = example_lib and SAGEConv = example_SAGEConv
      and init = "\<lambda>p. []" and ?draw0.0 = "\<lambda>i j. 0" and ?draw1.0 = "\<lambda>i j. 0" and g = split_graph
      and s = s and acc' = acc, THEN conjunct2, THEN conjunct2, THEN conjunct1, THEN mp, OF nc]
  obtain labels'' lg' s99 where "ndata split_graph ''club'' = Some (LongTensor1 labels'')"
    "for_loop (epoch example_lib ?net split_graph labels'') [0..<99] ?s0 = Inr s99"
    "forward ?net (params s99) split_graph (params s99 inputs) = Inr lg'"
    "lg' = all_logits s ! 99"
    by (elim exE conjE) (rule that)
  with club have prov: "for_loop (epoch example_lib ?net split_graph ?half) [0..<99] ?s0 = Inr s99"
    "forward ?net (params s99) split_graph (params s99 inputs) = Inr (all_logits s ! 99)"
    by simp_all
  have cnt: "card {i. i < 34 \<and> map_option int (argmax (replicate 34 [0, 0 :: real] ! i)) =
                            Some (?half ! i)} = 17"
    unfolding split_hits by simp
  from nc half have nc': "node_classification example_lib example_SAGEConv (\<lambda>p. []) (\<lambda>i j. 0) (\<lambda>i j. 0)
                 split_graph = Inr (s, 1 / 2)"
    by simp
  have "\<exists>s s99. node_classification example_lib example_SAGEConv (\<lambda>p. []) (\<lambda>i j. 0) (\<lambda>i j. 0) split_graph
               = Inr (s, 1 / 2) \<and>
        train example_lib ?net split_graph ?half ?s0 = Inr s \<and>
        for_loop (epoch example_lib ?net split_graph ?half) [0..<99] ?s0 = Inr s99 \<and>
        forward ?net (params s99) split_graph (params s99 inputs) = Inr (all_logits s ! 99) \<and>
        length (all_logits s) = 100 \<and> logits s = Some (all_logits s ! 99) \<and>
        all_logits s ! 99 = replicate 34 [0, 0] \<and>
        number_of_nodes split_graph = 34 \<and>
        card {i. i < 34 \<and> map_option int (argmax (replicate 34 [0, 0 :: real] ! i)) =
                            Some (?half ! i)} = 17"
    using nc' tr prov n lgs l99 nodes cnt
    by (intro exI [of _ s] exI [of _ s99] conjI)
  with v r bnd am show ?thesis by (intro conjI)
qed


section \<open>The trainable embedding\<close>

lemma nn_Embedding_shape:
  "length (nn_Embedding draw n d) = n \<and> (\<forall>row \<in> set (nn_Embedding draw n d). length row = d)"
  by (auto simp: nn_Embedding_def)

lemma xavier_uniform_shape:
  "length (xavier_uniform' draw w) = length w \<and>
   (\<forall>i < length w. length (xavier_uniform' draw w ! i) = length (w ! i))"
  by (simp add: xavier_uniform'_def)

lemma xavier_uniform_rows:
  assumes "\<forall>row \<in> set w. length row = d"
  shows "\<forall>row \<in> set (xavier_uniform' draw w). length row = d"
  using assms by (auto simp: xavier_uniform'_def)

text \<open>
  C9. The embedding has one row per node of the graph and five columns, and so has the
  tensor used as input features after its re-initialisation. The optimizer is given the
  parameters of the model followed by those of the embedding, and \<open>inputs\<close> is the
  embedding's parameter. In every epoch that completes, the optimizer keeps its
  parameters, and the embedding becomes what the update rule makes of it and its
  gradient (it is unchanged when the loss gave it no gradient).
\<close>

theorem embedding_is_trained:
  "length (node_embed draw0 g) = number_of_nodes g \<and>
   (\<forall>row \<in> set (node_embed draw0 g). length row = 5) \<and>
   length (params (initial_state SAGEConv init draw0 draw1 g) inputs) = number_of_nodes g \<and>
   (\<forall>row \<in> set (params (initial_state SAGEConv init draw0 draw1 g) inputs). length row = 5) \<and>
   param_groups (optimizer (initial_state SAGEConv init draw0 draw1 g)) =
     parameters (net_of SAGEConv) @ node_embed_parameters \<and>
   set (parameters (net_of SAGEConv)) \<union> set node_embed_parameters =
     set (param_groups (optimizer (initial_state SAGEConv init draw0 draw1 g))) \<and>
   inputs \<in> set node_embed_parameters \<and>
   (param_groups (optimizer s) = parameters net @ node_embed_parameters \<and>
    epoch lib net g labels e s = Inr s' \<longrightarrow>
      param_groups (optimizer s') = param_groups (optimizer s) \<and>
      params s' inputs =
        (case autograd lib (loss_of net g labels) (params s) inputs of
           None \<Rightarrow> params s inputs
         | Some gr \<Rightarrow> snd (adam_rule lib (opt_state (optimizer s) inputs) (params s inputs) gr)))"
proof (intro conjI impI)
  show "length (node_embed draw0 g) = number_of_nodes g"
    by (simp add: node_embed_def nn_Embedding_shape)
  show rows: "\<forall>row \<in> set (node_embed draw0 g). length row = 5"
    by (simp add: node_embed_def nn_Embedding_shape)
  show "length (params (initial_state SAGEConv init draw0 draw1 g) inputs) = number_of_nodes g"
    by (simp add: initial_state_def xavier_uniform_shape node_embed_def nn_Embedding_shape)
  show "\<forall>row \<in> set (params (initial_state SAGEConv init draw0 draw1 g) inputs). length row = 5"
    using xavier_uniform_rows [OF rows] by (simp add: initial_state_def)
  show "param_groups (optimizer (initial_state SAGEConv init draw0 draw1 g)) =
     parameters (net_of SAGEConv) @ node_embed_parameters"
    by (simp add: initial_state_def Adam_def)
  show "set (parameters (net_of SAGEConv)) \<union> set node_embed_parameters =
     set (param_groups (optimizer (initial_state SAGEConv init draw0 draw1 g)))"
    by (simp add: initial_state_def Adam_def)
  show "inputs \<in> set node_embed_parameters"
    by (simp add: inputs_def node_embed_parameters_def)
next
  assume a: "param_groups (optimizer s) = parameters net @ node_embed_parameters \<and>
    epoch lib net g labels e s = Inr s'"
  let ?grads = "autograd lib (loss_of net g labels) (params s)"
  obtain opt' st' where st: "optimizer_step (adam_rule lib) (optimizer s) ?grads (params s) = (opt', st')"
    by (cases "optimizer_step (adam_rule lib) (optimizer s) ?grads (params s)")
  from a epoch_Inr [of lib net g labels e s s'] st
  have s': "params s' = st'" "optimizer s' = opt'" by auto
  from a have pg: "param_groups (optimizer s) = parameters net @ [NodeEmbedWeight]"
    by (simp add: node_embed_parameters_def)
  from optimizer_step_frame [OF st] s'
  show "param_groups (optimizer s') = param_groups (optimizer s)" by simp
  from optimizer_step_last [OF pg inputs_not_in_parameters st] s'
  show "params s' inputs =
        (case ?grads inputs of
           None \<Rightarrow> params s inputs
         | Some gr \<Rightarrow> snd (adam_rule lib (opt_state (optimizer s) inputs) (params s inputs) gr))"
    unfolding inputs_def by simp
qed

theorem embedding_is_trained_witness:
  "length (params (initial_state example_SAGEConv (\<lambda>p. []) (\<lambda>i j. 0) (\<lambda>i j. 1) example_graph
             :: unit train_state) inputs) = 34 \<and>
   length (params (initial_state example_SAGEConv (\<lambda>p. []) (\<lambda>i j. 0) (\<lambda>i j. 1) example_graph
             :: unit train_state) inputs ! 0) = 5 \<and>
   param_groups (optimizer (initial_state example_SAGEConv (\<lambda>p. []) (\<lambda>i j. 0) (\<lambda>i j. 1) example_graph
             :: unit train_state)) =
     [Conv1 ''fc_self.weight'', Conv1 ''fc_neigh.weight'', Conv1 ''bias'',
      Conv2 ''fc_self.weight'', Conv2 ''fc_neigh.weight'', Conv2 ''bias'', NodeEmbedWeight] \<and>
   (\<exists>s'. epoch example_lib (net_of example_SAGEConv) example_graph (replicate 34 0) 0
            (initial_state example_SAGEConv (\<lambda>p. []) (\<lambda>i j. 0) (\<lambda>i j. 1) example_graph) = Inr s' \<and>
          params s' inputs = [[1]])"
proof -
  let ?net = "net_of example_SAGEConv" and ?lb = "replicate 34 (0::int)"
  let ?s0 = "initial_state example_SAGEConv (\<lambda>p. []) (\<lambda>i j. 0) (\<lambda>i j. 1) example_graph :: unit train_state"
  note inst = embedding_is_trained [where SAGEConv = example_SAGEConv and init = "\<lambda>p. []"
      and ?draw0.0 = "\<lambda>i j. 0" and ?draw1.0 = "\<lambda>i j. 1" and g = example_graph and net = ?net
      and labels = ?lb and lib = example_lib and e = 0 and s = ?s0]
  from inst have len: "length (params ?s0 inputs) = number_of_nodes example_graph"
    and rows: "\<forall>row \<in> set (params ?s0 inputs). length row = 5"
    and pg: "param_groups (optimizer ?s0) = parameters ?net @ node_embed_parameters"
    by blast+
  from example_loss_of [of "params ?s0"] obtain l where
    "loss_of ?net example_graph ?lb (params ?s0) = Inr l" by blast
  from epoch_succeeds [OF this, of example_lib 0] obtain s' where
    s': "epoch example_lib ?net example_graph ?lb 0 ?s0 = Inr s'" by blast
  from inst [of s'] pg s' have
    "params s' inputs =
       (case autograd example_lib (loss_of ?net example_graph ?lb) (params ?s0) inputs of
          None \<Rightarrow> params ?s0 inputs
        | Some gr \<Rightarrow> snd (adam_rule example_lib (opt_state (optimizer ?s0) inputs) (params ?s0 inputs) gr))"
    by blast
  then have upd: "params s' inputs = [[1]]"
    by (simp add: example_lib_def inputs_def)
  have n: "number_of_nodes example_graph = 34"
    by (simp add: number_of_nodes_def example_graph_def)
  have ps: "parameters ?net @ node_embed_parameters =
     [Conv1 ''fc_self.weight'', Conv1 ''fc_neigh.weight'', Conv1 ''bias'',
      Conv2 ''fc_self.weight'', Conv2 ''fc_neigh.weight'', Conv2 ''bias'', NodeEmbedWeight]"
    by (simp add: parameters_def net_of_def GraphSAGE_init_def example_SAGEConv_def
        node_embed_parameters_def)
  from len n have "params ?s0 inputs ! 0 \<in> set (params ?s0 inputs)" by simp
  with rows have cols: "length (params ?s0 inputs ! 0) = 5" by blast
  from s' upd have "\<exists>s'. epoch example_lib ?net example_graph ?lb 0 ?s0 = Inr s' \<and> params s' inputs = [[1]]"
    by blast
  with len n cols pg ps show ?thesis by (intro conjI) simp_all
qed

end
